theory Spec2Isabelle
  imports Complex_Main "HOL-Library.AList" "HOL-Library.Sublist"
begin

section \<open>The MBTA station service (src/services/mbtaApi.js)\<close>

text \<open>
  The service asks the MBTA API for routes and stops, groups the stops into stations,
  keeps the three closest ones inside a radius, fetches the routes of their stops and
  merges stations of the same name. The embedding follows the source function by
  function. JavaScript numbers are modelled by \<^typ>\<open>real\<close> (coordinates, distances),
  \<^typ>\<open>int\<close> (millisecond timestamps, the wheelchair flag) and \<^typ>\<open>nat\<close> (HTTP
  status, attempt counters, waiting times); strings are byte strings in UTF-8, as the
  source file stores them. The two string functions of the engine that the service
  calls on station names, \<^verbatim>\<open>toLowerCase\<close> and \<^verbatim>\<open>trim\<close>, are parameters. A value
  that may be \<^verbatim>\<open>undefined\<close> or \<^verbatim>\<open>null\<close> where the source tests for it is an
  \<^typ>\<open>'a option\<close>.
\<close>

subsection \<open>Data\<close>

record line =
  emoji :: string
  color :: string

definition red_circle :: string where
  "red_circle = [CHR 0xF0, CHR 0x9F, CHR 0x94, CHR 0xB4]"

definition orange_circle :: string where
  "orange_circle = [CHR 0xF0, CHR 0x9F, CHR 0x9F, CHR 0xA0]"

definition blue_circle :: string where
  "blue_circle = [CHR 0xF0, CHR 0x9F, CHR 0x94, CHR 0xB5]"

definition green_circle :: string where
  "green_circle = [CHR 0xF0, CHR 0x9F, CHR 0x9F, CHR 0xA2]"

text \<open>The object \<^verbatim>\<open>MBTA_LINES\<close>, keyed by line name, in the order of the source.\<close>

definition MBTA_LINES :: "(string \<times> line) list" where
  "MBTA_LINES =
    [(''Red'', \<lparr>emoji = red_circle, color = ''#DA291C''\<rparr>),
     (''Orange'', \<lparr>emoji = orange_circle, color = ''#ED8B00''\<rparr>),
     (''Blue'', \<lparr>emoji = blue_circle, color = ''#003DA5''\<rparr>),
     (''Green-B'', \<lparr>emoji = ''B'' @ green_circle, color = ''#00843D''\<rparr>),
     (''Green-C'', \<lparr>emoji = ''C'' @ green_circle, color = ''#00843D''\<rparr>),
     (''Green-D'', \<lparr>emoji = ''D'' @ green_circle, color = ''#00843D''\<rparr>),
     (''Green-E'', \<lparr>emoji = ''E'' @ green_circle, color = ''#00843D''\<rparr>),
     (''Mattapan'', \<lparr>emoji = ''M'' @ red_circle, color = ''#FFC72C''\<rparr>)]"

text \<open>\<^verbatim>\<open>MBTA_LINES[key]\<close>: the entry, or \<^verbatim>\<open>undefined\<close> for an unknown key.\<close>

definition MBTA_LINES_at :: "string \<Rightarrow> line option" where
  "MBTA_LINES_at key = map_of MBTA_LINES key"

definition CACHE_DURATION :: int where
  "CACHE_DURATION = 5 * 60 * 1000"

text \<open>
  A resource of a JSON:API document. For a route the source guards against a missing
  object, missing attributes, missing names and a missing id, so all of them are
  optional. For a stop the source reads id, attributes and name unguarded and tests
  latitude and longitude for truthiness.
\<close>

record route_attrs =
  long_name :: "string option"
  short_name :: "string option"

record route =
  route_id :: "string option"
  route_attributes :: "route_attrs option"

record stop_attrs =
  attr_name :: string
  attr_latitude :: "real option"
  attr_longitude :: "real option"
  attr_wheelchair_boarding :: "int option"

record stop =
  stop_id :: string
  stop_attributes :: stop_attrs

text \<open>The parsed body of a response: an object whose \<^verbatim>\<open>data\<close> member may be absent.\<close>

record 'a document =
  data :: "'a list option"

type_synonym routes_document = "route option document"
type_synonym stops_document = "stop document"

text \<open>
  What one call of \<^verbatim>\<open>fetch(url)\<close> gives: the promise rejects, or it resolves to a
  response with a status and a body that \<^verbatim>\<open>response.json()\<close> parses or not.
\<close>

datatype 'a response = Rejected | Response (status: nat) (json: "'a option")

definition ok :: "'a response \<Rightarrow> bool" where
  "ok r = (case r of Rejected \<Rightarrow> False | Response s b \<Rightarrow> 200 \<le> s \<and> s \<le> 299)"

datatype error =
    FetchRejected
  | HttpError nat
  | JsonSyntaxError
  | TypeError
  | NoStationData

text \<open>
  The world the module runs in: its two module variables and the trace of what it did
  to the outside (requests and waits, oldest first). A server answers the \<open>n\<close>-th
  request of the trace, counted from 0, for a URL.
\<close>

datatype event = Fetch string | Delay nat

record world =
  routesCache :: "routes_document option"
  routesCacheTimestamp :: int
  trace :: "event list"

type_synonym 'a server = "nat \<Rightarrow> string \<Rightarrow> 'a response"

record network =
  routes_api :: "routes_document server"
  stops_api :: "stops_document server"

fun is_fetch :: "event \<Rightarrow> bool" where
  "is_fetch (Fetch u) = True"
| "is_fetch (Delay ms) = False"

definition fetchCount :: "world \<Rightarrow> nat" where
  "fetchCount w = length (filter is_fetch (trace w))"

definition fetch :: "'a server \<Rightarrow> string \<Rightarrow> world \<Rightarrow> 'a response \<times> world" where
  "fetch srv url w = (srv (fetchCount w) url, w\<lparr>trace := trace w @ [Fetch url]\<rparr>)"

definition delay :: "nat \<Rightarrow> world \<Rightarrow> world" where
  "delay ms w = w\<lparr>trace := trace w @ [Delay ms]\<rparr>"

definition MBTA_BASE_URL :: string where
  "MBTA_BASE_URL = ''https://api-v3.mbta.com''"

subsection \<open>makeApiCall\<close>

text \<open>
  The body of the \<^verbatim>\<open>try\<close> block for one response: it leaves by \<^verbatim>\<open>continue\<close>
  (status 429), by a throw (rejected fetch, status outside 200..299, unparseable body)
  or by \<^verbatim>\<open>return data\<close>.
\<close>

datatype 'a outcome = Continue | Throw error | Return 'a

definition tryAttempt :: "'a response \<Rightarrow> 'a outcome" where
  "tryAttempt r =
    (case r of
       Rejected \<Rightarrow> Throw FetchRejected
     | Response s b \<Rightarrow>
         if s = 429 then Continue
         else if \<not> ok r then Throw (HttpError s)
         else (case b of None \<Rightarrow> Throw JsonSyntaxError | Some d \<Rightarrow> Return d))"

text \<open>
  The \<^verbatim>\<open>for\<close> loop from \<open>attempt\<close> on. A result \<open>Inr None\<close> is the loop running out:
  the function ends without a \<^verbatim>\<open>return\<close> and its promise resolves to
  \<^verbatim>\<open>undefined\<close>.
\<close>

function makeApiCall_from ::
  "'a server \<Rightarrow> string \<Rightarrow> nat \<Rightarrow> nat \<Rightarrow> world \<Rightarrow> (error + 'a option) \<times> world" where
  "makeApiCall_from srv url maxRetries attempt w =
    (if attempt \<le> maxRetries then
       (let r = fst (fetch srv url w); w1 = snd (fetch srv url w) in
        case tryAttempt r of
          Continue \<Rightarrow>
            makeApiCall_from srv url maxRetries (attempt + 1) (delay (2 ^ attempt * 1000) w1)
        | Return d \<Rightarrow> (Inr (Some d), w1)
        | Throw e \<Rightarrow>
            if attempt = maxRetries then (Inl e, w1)
            else makeApiCall_from srv url maxRetries (attempt + 1) (delay (2 ^ attempt * 1000) w1))
     else (Inr None, w))"
  by pat_completeness auto
termination
  by (relation "measure (\<lambda>(srv, url, maxRetries, attempt, w). Suc maxRetries - attempt)") auto

definition makeApiCall ::
  "'a server \<Rightarrow> string \<Rightarrow> nat \<Rightarrow> world \<Rightarrow> (error + 'a option) \<times> world" where
  "makeApiCall srv url maxRetries w = makeApiCall_from srv url maxRetries 1 w"

subsection \<open>calculateDistance\<close>

text \<open>\<^verbatim>\<open>Math.atan2(y, x)\<close> on real numbers.\<close>

definition atan2 :: "real \<Rightarrow> real \<Rightarrow> real" where
  "atan2 y x =
    (if 0 < x then arctan (y / x)
     else if x < 0 \<and> 0 \<le> y then arctan (y / x) + pi
     else if x < 0 then arctan (y / x) - pi
     else if 0 < y then pi / 2
     else if y < 0 then - (pi / 2)
     else 0)"

definition calculateDistance :: "real \<Rightarrow> real \<Rightarrow> real \<Rightarrow> real \<Rightarrow> real" where
  "calculateDistance lat1 lon1 lat2 lon2 =
    (let R = 6371;
         dLat = (lat2 - lat1) * pi / 180;
         dLon = (lon2 - lon1) * pi / 180;
         a = sin (dLat / 2) * sin (dLat / 2) +
             cos (lat1 * pi / 180) * cos (lat2 * pi / 180) *
             sin (dLon / 2) * sin (dLon / 2);
         c = 2 * atan2 (sqrt a) (sqrt (1 - a));
         distanceKm = R * c
     in distanceKm * 0.621371)"

subsection \<open>getLineInfo\<close>

text \<open>\<^verbatim>\<open>s.includes(t)\<close>: \<open>t\<close> occurs in \<open>s\<close> as a contiguous piece, case-sensitively.\<close>

definition includes_str :: "string \<Rightarrow> string \<Rightarrow> bool" where
  "includes_str s t = sublist t s"

text \<open>\<^verbatim>\<open>a || b\<close> on strings that may be missing: the empty string is falsy too.\<close>

definition truthy :: "string option \<Rightarrow> bool" where
  "truthy a = (case a of None \<Rightarrow> False | Some s \<Rightarrow> s \<noteq> [])"

definition js_or :: "string option \<Rightarrow> string option \<Rightarrow> string option" where
  "js_or a b = (if truthy a then a else b)"

definition or_empty :: "string option \<Rightarrow> string" where
  "or_empty a = (case js_or a (Some []) of None \<Rightarrow> [] | Some s \<Rightarrow> s)"

definition getLineInfo :: "route option \<Rightarrow> line option" where
  "getLineInfo route =
    (case route of
       None \<Rightarrow> None
     | Some r \<Rightarrow>
        (case route_attributes r of
           None \<Rightarrow> None
         | Some attributes \<Rightarrow>
            (let routeName = or_empty (js_or (long_name attributes) (short_name attributes));
                 routeId = or_empty (route_id r)
             in if includes_str routeName ''Red'' \<or> includes_str routeId ''Red'' then MBTA_LINES_at ''Red''
                else if includes_str routeName ''Orange'' \<or> includes_str routeId ''Orange''
                  then MBTA_LINES_at ''Orange''
                else if includes_str routeName ''Blue'' \<or> includes_str routeId ''Blue''
                  then MBTA_LINES_at ''Blue''
                else if includes_str routeName ''Green'' \<and> includes_str routeName ''B''
                  then MBTA_LINES_at ''Green-B''
                else if includes_str routeName ''Green'' \<and> includes_str routeName ''C''
                  then MBTA_LINES_at ''Green-C''
                else if includes_str routeName ''Green'' \<and> includes_str routeName ''D''
                  then MBTA_LINES_at ''Green-D''
                else if includes_str routeName ''Green'' \<and> includes_str routeName ''E''
                  then MBTA_LINES_at ''Green-E''
                else if includes_str routeName ''Mattapan'' \<or> includes_str routeId ''Mattapan''
                  then MBTA_LINES_at ''Mattapan''
                else if includes_str routeName ''Green'' \<or> includes_str routeId ''Green''
                  then MBTA_LINES_at ''Green-B''
                else None)))"

subsection \<open>getRoutesData\<close>

definition routesUrl :: string where
  "routesUrl = MBTA_BASE_URL @ ''/routes?filter[type]=0,1''"

text \<open>
  \<open>now\<close> is what \<^verbatim>\<open>Date.now()\<close> returns at the start of the call. The cache is
  truthy when it holds a document.
\<close>

definition getRoutesData ::
  "routes_document server \<Rightarrow> int \<Rightarrow> world \<Rightarrow> (error + routes_document option) \<times> world" where
  "getRoutesData srv now w =
    (if routesCache w \<noteq> None \<and> now - routesCacheTimestamp w < CACHE_DURATION
     then (Inr (routesCache w), w)
     else (case makeApiCall srv routesUrl 2 w of
             (Inl e, w1) \<Rightarrow> (Inl e, w1)
           | (Inr routesData, w1) \<Rightarrow>
               (Inr routesData, w1\<lparr>routesCache := routesData, routesCacheTimestamp := now\<rparr>)))"

subsection \<open>fetchNearbyStations: grouping the stops\<close>

text \<open>
  \<^verbatim>\<open>x.toFixed(6)\<close> prints the sign of a negative \<open>x\<close> and the integer nearest to
  \<open>\<bar>x\<bar> * 10^6\<close>, the larger one at a tie, with the point six digits from the right.
  The digits are determined by that integer and determine it, so the model keeps the
  sign and the integer instead of the text. The same holds for the station key
  \<^verbatim>\<open>`${name}_${lat}_${lon}`\<close>: the two numbers hold no underscore, so the text of the
  key determines its three parts and the model keeps the three parts.
\<close>

type_synonym fixed = "bool \<times> nat"
type_synonym station_key = "string \<times> fixed \<times> fixed"

definition toFixed6 :: "real \<Rightarrow> fixed" where
  "toFixed6 x = (x < 0, nat \<lfloor>\<bar>x\<bar> * 10 ^ 6 + 1 / 2\<rfloor>)"

text \<open>Reading \<^verbatim>\<open>toFixed\<close> from a missing latitude or longitude throws a TypeError.\<close>

definition createStationKey :: "stop \<Rightarrow> error + station_key" where
  "createStationKey stop =
    (case attr_latitude (stop_attributes stop) of
       None \<Rightarrow> Inl TypeError
     | Some la \<Rightarrow>
        (case attr_longitude (stop_attributes stop) of
           None \<Rightarrow> Inl TypeError
         | Some lo \<Rightarrow> Inr (attr_name (stop_attributes stop), toFixed6 la, toFixed6 lo)))"

record stationGroup =
  group_stops :: "stop list"
  group_name :: string
  group_latitude :: real
  group_longitude :: real
  group_wheelchair_accessible :: bool

text \<open>A number is truthy when it is present and not 0.\<close>

definition truthy_num :: "real option \<Rightarrow> bool" where
  "truthy_num x = (case x of None \<Rightarrow> False | Some v \<Rightarrow> v \<noteq> 0)"

definition hasCoordinates :: "stop \<Rightarrow> bool" where
  "hasCoordinates stop =
    (truthy_num (attr_latitude (stop_attributes stop)) \<and>
     truthy_num (attr_longitude (stop_attributes stop)))"

text \<open>
  The body of the \<^verbatim>\<open>forEach\<close> over the stops. \<^verbatim>\<open>stationGroups\<close> is a
  \<^verbatim>\<open>Map\<close>, which keeps its keys in the order of their first insertion: an association
  list. The last branch is never taken, \<open>createStationKey\<close> has thrown before.
\<close>

definition addStop ::
  "stop \<Rightarrow> (station_key \<times> stationGroup) list \<Rightarrow> error + (station_key \<times> stationGroup) list" where
  "addStop stop stationGroups =
    (case createStationKey stop of
       Inl e \<Rightarrow> Inl e
     | Inr stationKey \<Rightarrow>
        (case (attr_latitude (stop_attributes stop), attr_longitude (stop_attributes stop)) of
           (Some la, Some lo) \<Rightarrow>
             (let created =
                (if map_of stationGroups stationKey = None
                 then stationGroups @
                   [(stationKey,
                     \<lparr>group_stops = [],
                      group_name = attr_name (stop_attributes stop),
                      group_latitude = la,
                      group_longitude = lo,
                      group_wheelchair_accessible =
                        (attr_wheelchair_boarding (stop_attributes stop) = Some 1)\<rparr>)]
                 else stationGroups)
              in Inr (AList.map_entry stationKey
                        (\<lambda>g. g\<lparr>group_stops := group_stops g @ [stop]\<rparr>) created))
         | _ \<Rightarrow> Inl TypeError))"

text \<open>A \<^verbatim>\<open>forEach\<close> whose body may throw: the first throw ends it.\<close>

fun forEach :: "('a \<Rightarrow> 's \<Rightarrow> error + 's) \<Rightarrow> 'a list \<Rightarrow> 's \<Rightarrow> error + 's" where
  "forEach f [] s = Inr s"
| "forEach f (x # xs) s = (case f x s of Inl e \<Rightarrow> Inl e | Inr s' \<Rightarrow> forEach f xs s')"

definition groupStops :: "stop list \<Rightarrow> error + stationGroup list" where
  "groupStops stops =
    (case forEach addStop (filter hasCoordinates stops) [] of
       Inl e \<Rightarrow> Inl e
     | Inr stationGroups \<Rightarrow> Inr (map snd stationGroups))"

subsection \<open>fetchNearbyStations: distance, radius, the three closest\<close>

text \<open>
  \<^verbatim>\<open>Array.prototype.sort\<close> is stable and the comparator orders by distance;
  \<^const>\<open>sort_key\<close> is the stable insertion sort.
\<close>

definition stationsWithDistance ::
  "real \<Rightarrow> real \<Rightarrow> real \<Rightarrow> stationGroup list \<Rightarrow> (stationGroup \<times> real) list" where
  "stationsWithDistance lat lon radius groups =
    take 3
      (sort_key snd
        (filter (\<lambda>station. snd station \<le> radius)
          (map (\<lambda>stationGroup.
                  (stationGroup,
                   calculateDistance lat lon
                     (group_latitude stationGroup) (group_longitude stationGroup)))
               groups)))"

subsection \<open>fetchNearbyStations: the routes of each stop\<close>

record routeInfo =
  info_id :: "string option"
  info_name :: "string option"
  info_emoji :: string
  info_color :: string

text \<open>
  The body of the \<^verbatim>\<open>forEach\<close> over the routes of a stop: a route with a line gives
  one entry. When \<open>getLineInfo\<close> finds a line, the route and its attributes are there.
\<close>

definition routeInfoOf :: "route option \<Rightarrow> routeInfo option" where
  "routeInfoOf route =
    (case getLineInfo route of
       None \<Rightarrow> None
     | Some lineInfo \<Rightarrow>
        (case route of
           None \<Rightarrow> None
         | Some r \<Rightarrow>
            (case route_attributes r of
               None \<Rightarrow> None
             | Some attributes \<Rightarrow>
                 Some \<lparr>info_id = route_id r,
                       info_name = js_or (long_name attributes) (short_name attributes),
                       info_emoji = emoji lineInfo,
                       info_color = color lineInfo\<rparr>)))"

definition classifyRoutes :: "route option list \<Rightarrow> routeInfo list" where
  "classifyRoutes rs = List.map_filter routeInfoOf rs"

definition stopsUrl :: string where
  "stopsUrl = MBTA_BASE_URL @ ''/stops?filter[route_type]=0,1''"

definition stopRoutesUrl :: "string \<Rightarrow> string" where
  "stopRoutesUrl stopId =
    MBTA_BASE_URL @ ''/routes?filter[stop]='' @ stopId @ ''&filter[type]=0,1''"

text \<open>
  What the \<^verbatim>\<open>try\<close>/\<^verbatim>\<open>catch\<close> around one stop stores for it: the classified routes,
  and the empty list when the call threw, when the document has no \<^verbatim>\<open>data\<close>, and
  when the call gave \<^verbatim>\<open>undefined\<close> (reading \<^verbatim>\<open>data\<close> from it throws inside the
  \<^verbatim>\<open>try\<close>).
\<close>

definition storedRoutes :: "error + routes_document option \<Rightarrow> routeInfo list" where
  "storedRoutes r =
    (case r of
       Inl e \<Rightarrow> []
     | Inr None \<Rightarrow> []
     | Inr (Some stopRoutesData) \<Rightarrow>
         (case data stopRoutesData of None \<Rightarrow> [] | Some rs \<Rightarrow> classifyRoutes rs))"

definition first :: "'a list \<Rightarrow> 'a option" where
  "first xs = (case xs of [] \<Rightarrow> None | x # _ \<Rightarrow> Some x)"

text \<open>
  The \<^verbatim>\<open>for ... of\<close> loop over the stop ids. It waits 500 ms before every stop whose
  id differs from the first id of the whole list.
\<close>

fun fetchStopRoutes ::
  "routes_document server \<Rightarrow> string list \<Rightarrow> string list \<Rightarrow> (string \<rightharpoonup> routeInfo list) \<Rightarrow>
   world \<Rightarrow> (string \<rightharpoonup> routeInfo list) \<times> world" where
  "fetchStopRoutes srv allStopIds [] stopRoutesMap w = (stopRoutesMap, w)"
| "fetchStopRoutes srv allStopIds (stopId # rest) stopRoutesMap w =
    (let w1 = (if Some stopId \<noteq> first allStopIds then delay 500 w else w);
         r = makeApiCall srv (stopRoutesUrl stopId) 2 w1
     in fetchStopRoutes srv allStopIds rest
          (stopRoutesMap(stopId \<mapsto> storedRoutes (fst r))) (snd r))"

subsection \<open>fetchNearbyStations: the stations\<close>

record station =
  station_id :: string
  name :: string
  latitude :: real
  longitude :: real
  distance :: real
  wheelchair_accessible :: bool
  routes :: "routeInfo list"
  hasRouteData :: bool

text \<open>
  \<^verbatim>\<open>allRoutes\<close> is a \<^verbatim>\<open>Map\<close> keyed by route id: setting a key that is there keeps
  its place and replaces its value, which is \<^const>\<open>AList.update\<close>.
\<close>

definition setRoute :: "routeInfo \<Rightarrow> (string option \<times> routeInfo) list \<Rightarrow> (string option \<times> routeInfo) list" where
  "setRoute route m = AList.update (info_id route) route m"

definition collectRoutes ::
  "(string \<rightharpoonup> routeInfo list) \<Rightarrow> stop list \<Rightarrow> (string option \<times> routeInfo) list" where
  "collectRoutes stopRoutesMap stops =
    fold (\<lambda>stop allRoutes.
            fold setRoute
              (case stopRoutesMap (stop_id stop) of None \<Rightarrow> [] | Some stopRoutes \<Rightarrow> stopRoutes)
              allRoutes)
         stops []"

definition buildStation ::
  "(string \<rightharpoonup> routeInfo list) \<Rightarrow> stationGroup \<times> real \<Rightarrow> error + station" where
  "buildStation stopRoutesMap stationData =
    (let stationGroup = fst stationData;
         hasData = list_ex (\<lambda>stop. stopRoutesMap (stop_id stop) \<noteq> None) (group_stops stationGroup);
         allRoutes = (if hasData then collectRoutes stopRoutesMap (group_stops stationGroup) else [])
     in case group_stops stationGroup of
          [] \<Rightarrow> Inl TypeError
        | stop0 # _ \<Rightarrow>
            Inr \<lparr>station_id = stop_id stop0,
                 name = group_name stationGroup,
                 latitude = group_latitude stationGroup,
                 longitude = group_longitude stationGroup,
                 distance = snd stationData,
                 wheelchair_accessible = group_wheelchair_accessible stationGroup,
                 routes = map snd allRoutes,
                 hasRouteData = hasData\<rparr>)"

text \<open>A \<^verbatim>\<open>map\<close> whose callback may throw.\<close>

fun mapE :: "('a \<Rightarrow> error + 'b) \<Rightarrow> 'a list \<Rightarrow> error + 'b list" where
  "mapE f [] = Inr []"
| "mapE f (x # xs) =
    (case f x of
       Inl e \<Rightarrow> Inl e
     | Inr y \<Rightarrow> (case mapE f xs of Inl e \<Rightarrow> Inl e | Inr ys \<Rightarrow> Inr (y # ys)))"

subsection \<open>fetchNearbyStations: merging stations of the same name\<close>

text \<open>
  \<^verbatim>\<open>String.prototype.toLowerCase\<close> and \<^verbatim>\<open>String.prototype.trim\<close> are functions of
  the JavaScript engine and not of this module: the first follows the case mappings of
  the engine's version of Unicode, the second strips the white space and the line
  terminators of ECMAScript, U+00A0 and U+FEFF among them. The merge uses them only to
  compare names, so they are parameters of the embedding, and what is proved of the
  merge holds for the functions of every engine.
\<close>

record string_prototype =
  toLowerCase :: "string \<Rightarrow> string"
  trim :: "string \<Rightarrow> string"

text \<open>\<^verbatim>\<open>name.toLowerCase().trim()\<close>, the key by which the reducer compares stations.\<close>

definition nameKey :: "string_prototype \<Rightarrow> string \<Rightarrow> string" where
  "nameKey sp s = trim sp (toLowerCase sp s)"

text \<open>The \<^verbatim>\<open>else\<close> branch of the reducer: what becomes of the station found.\<close>

definition mergeRoutes :: "routeInfo list \<Rightarrow> routeInfo list \<Rightarrow> routeInfo list" where
  "mergeRoutes existing new =
    (let existingRoutes = fold setRoute existing [];
         merged = fold (\<lambda>route m. if map_of m (info_id route) = None then setRoute route m else m)
                    new existingRoutes
     in map snd merged)"

definition mergeInto :: "station \<Rightarrow> station \<Rightarrow> station" where
  "mergeInto station existingStation =
    (let s1 = existingStation\<lparr>routes := mergeRoutes (routes existingStation) (routes station)\<rparr>;
         s2 = (if distance station < distance s1
               then s1\<lparr>distance := distance station,
                       latitude := latitude station,
                       longitude := longitude station\<rparr>
               else s1)
     in if wheelchair_accessible station then s2\<lparr>wheelchair_accessible := True\<rparr> else s2)"

text \<open>
  \<^verbatim>\<open>unique.find(...)\<close> gives the first station of that name, and the reducer changes
  that object, which is the one in the list.
\<close>

fun updateFirst :: "('a \<Rightarrow> bool) \<Rightarrow> ('a \<Rightarrow> 'a) \<Rightarrow> 'a list \<Rightarrow> 'a list" where
  "updateFirst P f [] = []"
| "updateFirst P f (x # xs) = (if P x then f x # xs else x # updateFirst P f xs)"

definition mergeStep :: "string_prototype \<Rightarrow> station list \<Rightarrow> station \<Rightarrow> station list" where
  "mergeStep sp unique station =
    (let stationNameLower = nameKey sp (name station) in
     case find (\<lambda>s. nameKey sp (name s) = stationNameLower) unique of
       None \<Rightarrow> unique @ [station]
     | Some existingStation \<Rightarrow>
         updateFirst (\<lambda>s. nameKey sp (name s) = stationNameLower) (mergeInto station) unique)"

definition finalStations :: "string_prototype \<Rightarrow> station list \<Rightarrow> station list" where
  "finalStations sp stationsWithRoutes = foldl (mergeStep sp) [] stationsWithRoutes"

subsection \<open>fetchNearbyStations\<close>

text \<open>
  The part after the stops have arrived; \<open>lat\<close> and \<open>lon\<close> are the parameters
  \<^verbatim>\<open>latitude\<close> and \<^verbatim>\<open>longitude\<close>. \<^verbatim>\<open>limitedStations\<close> is the first three of a
  list of at most three.
\<close>

definition resolveStations ::
  "string_prototype \<Rightarrow> routes_document server \<Rightarrow> real \<Rightarrow> real \<Rightarrow> real \<Rightarrow> stop list \<Rightarrow> world \<Rightarrow>
   (error + station list) \<times> world" where
  "resolveStations sp srv lat lon radius stops w =
    (case groupStops stops of
       Inl e \<Rightarrow> (Inl e, w)
     | Inr groups \<Rightarrow>
        (let withDistance = stationsWithDistance lat lon radius groups;
             limitedStations = take 3 withDistance;
             allStopIds = concat (map (\<lambda>station. map stop_id (group_stops (fst station)))
                                      limitedStations);
             fetched = fetchStopRoutes srv allStopIds allStopIds Map.empty w
         in case mapE (buildStation (fst fetched)) withDistance of
              Inl e \<Rightarrow> (Inl e, snd fetched)
            | Inr stationsWithRoutes \<Rightarrow> (Inr (finalStations sp stationsWithRoutes), snd fetched)))"

text \<open>
  The whole function. \<^verbatim>\<open>routeLineMap\<close> is built from the routes and only logged, so
  all that remains of it is the read of \<^verbatim>\<open>routesData.data\<close>, which throws a TypeError
  when \<open>getRoutesData\<close> gave \<^verbatim>\<open>undefined\<close>; the same holds for the stops. The outer
  \<^verbatim>\<open>catch\<close> throws what it caught.
\<close>

definition fetchNearbyStations ::
  "string_prototype \<Rightarrow> network \<Rightarrow> real \<Rightarrow> real \<Rightarrow> real \<Rightarrow> int \<Rightarrow> world \<Rightarrow> (error + station list) \<times> world" where
  "fetchNearbyStations sp net lat lon radius now w =
    (case getRoutesData (routes_api net) now w of
       (Inl e, w1) \<Rightarrow> (Inl e, w1)
     | (Inr None, w1) \<Rightarrow> (Inl TypeError, w1)
     | (Inr (Some routesData), w1) \<Rightarrow>
        (case makeApiCall (stops_api net) stopsUrl 2 w1 of
           (Inl e, w2) \<Rightarrow> (Inl e, w2)
         | (Inr None, w2) \<Rightarrow> (Inl TypeError, w2)
         | (Inr (Some d), w2) \<Rightarrow>
            (case data d of
               None \<Rightarrow> (Inl NoStationData, w2)
             | Some stops \<Rightarrow>
                 resolveStations sp (routes_api net) lat lon radius stops w2)))"

subsection \<open>The route classifier as a list of rules\<close>

text \<open>
  The classifier in the words of the specification: rules in a fixed order of priority,
  each a line name and a test on the route's name and id; the first rule whose test
  holds gives the line, and no rule gives no match. The last rule is the default for a
  Green route without a branch.
\<close>

definition classifierRules :: "(string \<times> (string \<Rightarrow> string \<Rightarrow> bool)) list" where
  "classifierRules =
    [(''Red'', \<lambda>routeName routeId. includes_str routeName ''Red'' \<or> includes_str routeId ''Red''),
     (''Orange'',
        \<lambda>routeName routeId. includes_str routeName ''Orange'' \<or> includes_str routeId ''Orange''),
     (''Blue'', \<lambda>routeName routeId. includes_str routeName ''Blue'' \<or> includes_str routeId ''Blue''),
     (''Green-B'', \<lambda>routeName routeId. includes_str routeName ''Green'' \<and> includes_str routeName ''B''),
     (''Green-C'', \<lambda>routeName routeId. includes_str routeName ''Green'' \<and> includes_str routeName ''C''),
     (''Green-D'', \<lambda>routeName routeId. includes_str routeName ''Green'' \<and> includes_str routeName ''D''),
     (''Green-E'', \<lambda>routeName routeId. includes_str routeName ''Green'' \<and> includes_str routeName ''E''),
     (''Mattapan'',
        \<lambda>routeName routeId. includes_str routeName ''Mattapan'' \<or> includes_str routeId ''Mattapan''),
     (''Green-B'',
        \<lambda>routeName routeId. includes_str routeName ''Green'' \<or> includes_str routeId ''Green'')]"

definition classify :: "string \<Rightarrow> string \<Rightarrow> line option" where
  "classify routeName routeId =
    (case find (\<lambda>rule. snd rule routeName routeId) classifierRules of
       None \<Rightarrow> None
     | Some rule \<Rightarrow> MBTA_LINES_at (fst rule))"

subsection \<open>Invariants and reference definitions\<close>

text \<open>
  What holds of every entry of \<^verbatim>\<open>stationGroups\<close>: the group has a first stop, every
  stop of it passed the coordinate filter and has the key of the entry, and the name,
  coordinate and wheelchair flag of the group are those of its first stop.
\<close>

definition groupInvariant :: "station_key \<times> stationGroup \<Rightarrow> bool" where
  "groupInvariant kg =
    (case group_stops (snd kg) of
       [] \<Rightarrow> False
     | stop0 # others \<Rightarrow>
         (\<forall>s \<in> set (stop0 # others). hasCoordinates s \<and> createStationKey s = Inr (fst kg)) \<and>
         group_name (snd kg) = attr_name (stop_attributes stop0) \<and>
         attr_latitude (stop_attributes stop0) = Some (group_latitude (snd kg)) \<and>
         attr_longitude (stop_attributes stop0) = Some (group_longitude (snd kg)) \<and>
         group_wheelchair_accessible (snd kg) =
           (attr_wheelchair_boarding (stop_attributes stop0) = Some 1))"

text \<open>A station built from a group and its distance, whatever its routes are.\<close>

definition stationFromGroup :: "stationGroup \<times> real \<Rightarrow> station \<Rightarrow> bool" where
  "stationFromGroup sd st =
    (distance st = snd sd \<and> name st = group_name (fst sd) \<and>
     latitude st = group_latitude (fst sd) \<and> longitude st = group_longitude (fst sd) \<and>
     wheelchair_accessible st = group_wheelchair_accessible (fst sd) \<and>
     station_id st = stop_id (hd (group_stops (fst sd))) \<and>
     hasRouteData st)"

text \<open>
  The merge of the stations of one name in the words of the specification: the keys in
  the order of their first occurrence, and for each key the stations of that key
  folded into the first of them. \<open>mergeAll\<close> is only applied to the stations of a key
  that occurs, a list that is not empty.
\<close>

definition firstOccurrences :: "'a list \<Rightarrow> 'a list" where
  "firstOccurrences ks = rev (remdups (rev ks))"

definition sameName :: "string_prototype \<Rightarrow> string \<Rightarrow> station \<Rightarrow> bool" where
  "sameName sp k s = (nameKey sp (name s) = k)"

definition mergeAll :: "station list \<Rightarrow> station" where
  "mergeAll cls = foldl (\<lambda>existingStation station. mergeInto station existingStation) (hd cls) (tl cls)"

subsection \<open>Concrete inputs\<close>

text \<open>
  The string functions of the instances. All names of the instances are ASCII strings. On
  an ASCII string the functions of an engine lower the letters A to Z and strip tab, line
  feed, vertical tab, form feed, carriage return and space from both ends, and so do
  these; bytes of other characters they leave as they are, so they stand for an engine
  on ASCII strings only, and no general property is stated of them.
\<close>

definition asciiToLowerCase :: "string \<Rightarrow> string" where
  "asciiToLowerCase s =
    map (\<lambda>c. let n = (of_char c :: nat) in if 65 \<le> n \<and> n \<le> 90 then char_of (n + 32) else c) s"

definition asciiWhiteSpace :: "char \<Rightarrow> bool" where
  "asciiWhiteSpace c = (let n = (of_char c :: nat) in (9 \<le> n \<and> n \<le> 13) \<or> n = 32)"

definition asciiTrim :: "string \<Rightarrow> string" where
  "asciiTrim s = rev (dropWhile asciiWhiteSpace (rev (dropWhile asciiWhiteSpace s)))"

definition asciiStrings :: string_prototype where
  "asciiStrings = \<lparr>toLowerCase = asciiToLowerCase, trim = asciiTrim\<rparr>"

text \<open>The module as it is loaded: nothing cached, nothing done yet.\<close>

definition world0 :: world where
  "world0 = \<lparr>routesCache = None, routesCacheTimestamp = 0, trace = []\<rparr>"

definition namedRoute :: "string \<Rightarrow> string \<Rightarrow> route" where
  "namedRoute i n =
    \<lparr>route_id = Some i, route_attributes = Some \<lparr>long_name = Some n, short_name = None\<rparr>\<rparr>"

definition bareRoute :: route where
  "bareRoute = \<lparr>route_id = Some ''Red'', route_attributes = None\<rparr>"

definition redLineDocument :: routes_document where
  "redLineDocument = \<lparr>data = Some [Some (namedRoute ''Red'' ''Red Line'')]\<rparr>"

text \<open>A server that answers every request with status 429.\<close>

definition rateLimited :: "'a server" where
  "rateLimited n url = Response 429 None"

text \<open>A server that answers the first request with status 429 and then with a document.\<close>

definition limitedOnce :: "routes_document server" where
  "limitedOnce n url = (if n = 0 then Response 429 None else Response 200 (Some redLineDocument))"

definition routesServer :: "routes_document server" where
  "routesServer n url = Response 200 (Some redLineDocument)"

definition unreachable :: "'a server" where
  "unreachable n url = Rejected"

definition cachedWorld :: world where
  "cachedWorld = \<lparr>routesCache = Some redLineDocument, routesCacheTimestamp = 1000, trace = []\<rparr>"

text \<open>
  The example of the specification: two platform stops named "Park Street" at
  (42.3554, -71.0640) with different ids and wheelchair flags, the group and the station
  they give, and servers that answer with them.
\<close>

definition platform :: "string \<Rightarrow> int \<Rightarrow> stop" where
  "platform i wb =
    \<lparr>stop_id = i,
     stop_attributes =
       \<lparr>attr_name = ''Park Street'', attr_latitude = Some 42.3554,
        attr_longitude = Some (- 71.0640), attr_wheelchair_boarding = Some wb\<rparr>\<rparr>"

definition parkStreetGroup :: "stop list \<Rightarrow> bool \<Rightarrow> stationGroup" where
  "parkStreetGroup stops accessible =
    \<lparr>group_stops = stops, group_name = ''Park Street'', group_latitude = 42.3554,
     group_longitude = - 71.0640, group_wheelchair_accessible = accessible\<rparr>"

definition redLineInfo :: routeInfo where
  "redLineInfo =
    \<lparr>info_id = Some ''Red'', info_name = Some ''Red Line'', info_emoji = red_circle,
     info_color = ''#DA291C''\<rparr>"

definition parkStreetStation :: "string \<Rightarrow> real \<Rightarrow> bool \<Rightarrow> routeInfo list \<Rightarrow> station" where
  "parkStreetStation i d accessible rs =
    \<lparr>station_id = i, name = ''Park Street'', latitude = 42.3554, longitude = - 71.0640,
     distance = d, wheelchair_accessible = accessible, routes = rs, hasRouteData = True\<rparr>"

definition parkStreetStops :: "int \<Rightarrow> int \<Rightarrow> stops_document" where
  "parkStreetStops a b = \<lparr>data = Some [platform ''70075'' a, platform ''70076'' b]\<rparr>"

definition stopsServer :: "stops_document \<Rightarrow> stops_document server" where
  "stopsServer d n url = Response 200 (Some d)"

definition parkStreetNet :: "int \<Rightarrow> int \<Rightarrow> network" where
  "parkStreetNet a b = \<lparr>routes_api = routesServer, stops_api = stopsServer (parkStreetStops a b)\<rparr>"

definition routesThenDown :: "routes_document server" where
  "routesThenDown n url = (if n = 0 then Response 200 (Some redLineDocument) else Rejected)"

definition degradedNet :: network where
  "degradedNet = \<lparr>routes_api = routesThenDown, stops_api = stopsServer (parkStreetStops 1 0)\<rparr>"

definition afterRoutes :: "int \<Rightarrow> event list \<Rightarrow> world" where
  "afterRoutes now t =
    \<lparr>routesCache = Some redLineDocument, routesCacheTimestamp = now,
     trace = [Fetch routesUrl, Fetch stopsUrl] @ t\<rparr>"

text \<open>Stops that the coordinate filter drops, and two stations of one name.\<close>

definition noLatitudeStop :: stop where
  "noLatitudeStop =
    \<lparr>stop_id = ''place-x'',
     stop_attributes =
       \<lparr>attr_name = ''Nowhere'', attr_latitude = None,
        attr_longitude = Some (- 71.0640), attr_wheelchair_boarding = Some 1\<rparr>\<rparr>"

definition equatorStop :: stop where
  "equatorStop =
    \<lparr>stop_id = ''place-y'',
     stop_attributes =
       \<lparr>attr_name = ''Equator'', attr_latitude = Some 0,
        attr_longitude = Some (- 71.0640), attr_wheelchair_boarding = Some 1\<rparr>\<rparr>"

definition greenLineInfo :: routeInfo where
  "greenLineInfo =
    \<lparr>info_id = Some ''Green-B'', info_name = Some ''Green Line B'',
     info_emoji = ''B'' @ green_circle, info_color = ''#00843D''\<rparr>"

definition parkStreetUpper :: station where
  "parkStreetUpper =
    \<lparr>station_id = ''70075'', name = ''Park Street'', latitude = 42.3554, longitude = - 71.0640,
     distance = 0.3, wheelchair_accessible = False, routes = [redLineInfo], hasRouteData = True\<rparr>"

definition parkStreetLower :: station where
  "parkStreetLower =
    \<lparr>station_id = ''70196'', name = ''park street '', latitude = 42.3563, longitude = - 71.0624,
     distance = 0.2, wheelchair_accessible = True, routes = [redLineInfo, greenLineInfo],
     hasRouteData = True\<rparr>"

definition parkStreetMerged :: station where
  "parkStreetMerged =
    \<lparr>station_id = ''70075'', name = ''Park Street'', latitude = 42.3563, longitude = - 71.0624,
     distance = 0.2, wheelchair_accessible = True, routes = [redLineInfo, greenLineInfo],
     hasRouteData = True\<rparr>"

text \<open>
  An association list as the route maps are built: distinct keys, every route under its
  own id. \<open>setIfAbsent\<close> is the body of the second loop of the reducer.
\<close>

definition keyed :: "(string option \<times> routeInfo) list \<Rightarrow> bool" where
  "keyed al = (distinct (map fst al) \<and> list_all (\<lambda>kr. fst kr = info_id (snd kr)) al)"

abbreviation (input) setIfAbsent ::
  "routeInfo \<Rightarrow> (string option \<times> routeInfo) list \<Rightarrow> (string option \<times> routeInfo) list" where
  "setIfAbsent \<equiv> \<lambda>route m. if map_of m (info_id route) = None then setRoute route m else m"

text \<open>The haversine term \<open>a\<close> of the example: query (42.3601, -71.0589), stop (42.3554, -71.0640).\<close>

definition parkStreetHaversine :: real where
  "parkStreetHaversine =
    (sin (0.0047 * pi / 360))\<^sup>2 +
    cos (42.3601 * pi / 180) * cos (42.3554 * pi / 180) * (sin (0.0051 * pi / 360))\<^sup>2"

section \<open>Properties\<close>

declare makeApiCall_from.simps [simp del]

subsection \<open>The retrying fetcher\<close>

lemma fetch_simps [simp]:
  "fst (fetch srv url w) = srv (fetchCount w) url"
  "snd (fetch srv url w) = w\<lparr>trace := trace w @ [Fetch url]\<rparr>"
  by (simp_all add: fetch_def)

lemma fetchCount_simps [simp]:
  "fetchCount (w\<lparr>trace := trace w @ [Fetch url]\<rparr>) = Suc (fetchCount w)"
  "fetchCount (delay ms w) = fetchCount w"
  "fetchCount (w\<lparr>routesCache := c\<rparr>) = fetchCount w"
  "fetchCount (w\<lparr>routesCacheTimestamp := ts\<rparr>) = fetchCount w"
  by (simp_all add: fetchCount_def delay_def)

lemma makeApiCall_from_done:
  "\<not> attempt \<le> maxRetries \<Longrightarrow> makeApiCall_from srv url maxRetries attempt w = (Inr None, w)"
  by (subst makeApiCall_from.simps) simp

lemma makeApiCall_from_Return:
  "attempt \<le> maxRetries \<Longrightarrow> tryAttempt (srv (fetchCount w) url) = Return d \<Longrightarrow>
   makeApiCall_from srv url maxRetries attempt w =
   (Inr (Some d), w\<lparr>trace := trace w @ [Fetch url]\<rparr>)"
  by (subst makeApiCall_from.simps) (simp add: Let_def)

lemma makeApiCall_from_Continue:
  "attempt \<le> maxRetries \<Longrightarrow> tryAttempt (srv (fetchCount w) url) = Continue \<Longrightarrow>
   makeApiCall_from srv url maxRetries attempt w =
   makeApiCall_from srv url maxRetries (attempt + 1)
     (delay (2 ^ attempt * 1000) (w\<lparr>trace := trace w @ [Fetch url]\<rparr>))"
  by (subst makeApiCall_from.simps) (simp add: Let_def)

lemma makeApiCall_from_Throw_last:
  "attempt = maxRetries \<Longrightarrow> tryAttempt (srv (fetchCount w) url) = Throw e \<Longrightarrow>
   makeApiCall_from srv url maxRetries attempt w =
   (Inl e, w\<lparr>trace := trace w @ [Fetch url]\<rparr>)"
  by (subst makeApiCall_from.simps) (simp add: Let_def)

lemma makeApiCall_from_Throw_retry:
  "attempt < maxRetries \<Longrightarrow> tryAttempt (srv (fetchCount w) url) = Throw e \<Longrightarrow>
   makeApiCall_from srv url maxRetries attempt w =
   makeApiCall_from srv url maxRetries (attempt + 1)
     (delay (2 ^ attempt * 1000) (w\<lparr>trace := trace w @ [Fetch url]\<rparr>))"
  by (subst makeApiCall_from.simps) (simp add: Let_def)

lemma tryAttempt_simps:
  "tryAttempt Rejected = Throw FetchRejected"
  "tryAttempt (Response 429 b) = Continue"
  "200 \<le> s \<Longrightarrow> s \<le> 299 \<Longrightarrow> tryAttempt (Response s (Some d)) = Return d"
  by (simp_all add: tryAttempt_def ok_def)

text \<open>Every call with at least one attempt sends a request; no call touches the cache.\<close>

lemma makeApiCall_from_fetchCount:
  "fetchCount w \<le> fetchCount (snd (makeApiCall_from srv url maxRetries attempt w)) \<and>
   (attempt \<le> maxRetries \<longrightarrow>
      fetchCount w < fetchCount (snd (makeApiCall_from srv url maxRetries attempt w)))"
proof (induction srv url maxRetries attempt w rule: makeApiCall_from.induct)
  case (1 srv url maxRetries attempt w)
  show ?case
  proof (cases "attempt \<le> maxRetries")
    case False
    then show ?thesis by (simp add: makeApiCall_from_done)
  next
    case True
    show ?thesis
    proof (cases "tryAttempt (fst (fetch srv url w))")
      case Continue
      with True 1(1)[OF True refl refl Continue] show ?thesis
        by (simp add: makeApiCall_from_Continue)
    next
      case (Return d)
      with True show ?thesis
        by (simp add: makeApiCall_from_Return)
    next
      case (Throw e)
      show ?thesis
      proof (cases "attempt = maxRetries")
        case True
        with Throw show ?thesis by (simp add: makeApiCall_from_Throw_last)
      next
        case False
        with True have "attempt < maxRetries" by simp
        with Throw 1(2)[OF True refl refl Throw False] show ?thesis
          by (simp add: makeApiCall_from_Throw_retry)
      qed
    qed
  qed
qed

lemma makeApiCall_from_cache:
  "routesCache (snd (makeApiCall_from srv url maxRetries attempt w)) = routesCache w \<and>
   routesCacheTimestamp (snd (makeApiCall_from srv url maxRetries attempt w)) =
     routesCacheTimestamp w"
proof (induction srv url maxRetries attempt w rule: makeApiCall_from.induct)
  case (1 srv url maxRetries attempt w)
  show ?case
  proof (cases "attempt \<le> maxRetries")
    case False
    then show ?thesis by (simp add: makeApiCall_from_done)
  next
    case True
    show ?thesis
    proof (cases "tryAttempt (fst (fetch srv url w))")
      case Continue
      with True 1(1)[OF True refl refl Continue] show ?thesis
        by (simp add: makeApiCall_from_Continue delay_def)
    next
      case (Return d)
      with True show ?thesis
        by (simp add: makeApiCall_from_Return)
    next
      case (Throw e)
      show ?thesis
      proof (cases "attempt = maxRetries")
        case True
        with Throw show ?thesis by (simp add: makeApiCall_from_Throw_last)
      next
        case False
        with True have "attempt < maxRetries" by simp
        with Throw 1(2)[OF True refl refl Throw False] show ?thesis
          by (simp add: makeApiCall_from_Throw_retry delay_def)
      qed
    qed
  qed
qed

lemma makeApiCall_fetches: "fetchCount w < fetchCount (snd (makeApiCall srv url 2 w))"
  using makeApiCall_from_fetchCount [of w srv url 2 1] by (simp add: makeApiCall_def)

lemma makeApiCall_rateLimited:
  "makeApiCall rateLimited url 2 w =
   (Inr None, w\<lparr>trace := trace w @ [Fetch url, Delay 2000, Fetch url, Delay 4000]\<rparr>)"
  by (simp add: makeApiCall_def makeApiCall_from_Continue makeApiCall_from_done
      rateLimited_def tryAttempt_simps delay_def)

lemma makeApiCall_first_ok:
  assumes "srv (fetchCount w) url = Response 200 (Some d)"
  shows "makeApiCall srv url 2 w = (Inr (Some d), w\<lparr>trace := trace w @ [Fetch url]\<rparr>)"
  using assms by (simp add: makeApiCall_def makeApiCall_from_Return tryAttempt_simps)

lemma makeApiCall_unreachable:
  "makeApiCall unreachable url 2 w =
   (Inl FetchRejected, w\<lparr>trace := trace w @ [Fetch url, Delay 2000, Fetch url]\<rparr>)"
  by (simp add: makeApiCall_def makeApiCall_from_Throw_retry makeApiCall_from_Throw_last
      unreachable_def tryAttempt_simps delay_def)

text \<open>
  C3. When both attempts are answered with status 429, \<open>makeApiCall\<close> waits 2 s and 4 s
  and then ends normally with \<^verbatim>\<open>undefined\<close>: it throws nothing. The caller
  \<open>fetchNearbyStations\<close> then fails with the TypeError of reading \<^verbatim>\<open>data\<close> from
  \<^verbatim>\<open>undefined\<close>, not with an error of the fetch.
\<close>

theorem makeApiCall_429_exhausted_returns_undefined:
  "makeApiCall rateLimited routesUrl 2 world0 =
     (Inr None,
      world0\<lparr>trace := [Fetch routesUrl, Delay 2000, Fetch routesUrl, Delay 4000]\<rparr>) \<and>
   fst (fetchNearbyStations sp \<lparr>routes_api = rateLimited, stops_api = rateLimited\<rparr>
          42.3601 (-71.0589) 1.25 0 world0) = Inl TypeError"
  by (simp add: makeApiCall_rateLimited fetchNearbyStations_def getRoutesData_def world0_def)

text \<open>
  C5. A call with a budget of at least two attempts whose first request is answered
  with status 429 and whose second request is answered with a status from 200 to 299
  and a body that parses returns that body; between the two requests it waits
  \<open>2 ^ 1 * 1000\<close> milliseconds, and it does nothing else.
\<close>

theorem makeApiCall_retry_after_429:
  assumes "2 \<le> maxRetries"
    and "srv (fetchCount w) url = Response 429 b"
    and "srv (Suc (fetchCount w)) url = Response s (Some body)"
    and "200 \<le> s" and "s \<le> 299"
  shows "makeApiCall srv url maxRetries w =
    (Inr (Some body), w\<lparr>trace := trace w @ [Fetch url, Delay (2 ^ 1 * 1000), Fetch url]\<rparr>)"
proof -
  let ?w1 = "delay (2 ^ 1 * 1000) (w\<lparr>trace := trace w @ [Fetch url]\<rparr>)"
  have "makeApiCall_from srv url maxRetries 1 w = makeApiCall_from srv url maxRetries (1 + 1) ?w1"
    using assms by (intro makeApiCall_from_Continue) (simp_all add: tryAttempt_simps)
  moreover have "makeApiCall_from srv url maxRetries (1 + 1) ?w1 =
      (Inr (Some body), ?w1\<lparr>trace := trace ?w1 @ [Fetch url]\<rparr>)"
    using assms by (intro makeApiCall_from_Return) (simp_all add: tryAttempt_simps)
  ultimately show ?thesis
    by (simp add: makeApiCall_def delay_def)
qed

theorem makeApiCall_retry_after_429_witness:
  "(2::nat) \<le> 2 \<and>
   limitedOnce (fetchCount world0) routesUrl = Response 429 None \<and>
   limitedOnce (Suc (fetchCount world0)) routesUrl = Response 200 (Some redLineDocument) \<and>
   makeApiCall limitedOnce routesUrl 2 world0 =
     (Inr (Some redLineDocument),
      world0\<lparr>trace := [Fetch routesUrl, Delay 2000, Fetch routesUrl]\<rparr>)"
  using makeApiCall_retry_after_429 [of 2 limitedOnce world0 routesUrl None 200 redLineDocument]
  by (simp add: limitedOnce_def fetchCount_def world0_def)

subsection \<open>The route classifier\<close>

text \<open>
  C6. A missing route and a route without attributes give no match. Otherwise the line
  is that of the first rule, in the order Red, Orange, Blue, Green-B, Green-C, Green-D,
  Green-E, Mattapan, Green default, whose test holds for the route's name and id, and
  no match when no test holds. "Green Line B Branch" gives Green-B, "Green Line" gives
  Green-B by the default rule, and "Silver Line SL1" gives no match.
\<close>

theorem getLineInfo_first_matching_rule:
  "getLineInfo None = None \<and>
   (route_attributes r = None \<longrightarrow> getLineInfo (Some r) = None) \<and>
   (route_attributes r = Some a \<longrightarrow>
      getLineInfo (Some r) =
        classify (or_empty (js_or (long_name a) (short_name a))) (or_empty (route_id r))) \<and>
   getLineInfo (Some (namedRoute ''Green-B'' ''Green Line B Branch'')) =
     Some \<lparr>emoji = ''B'' @ green_circle, color = ''#00843D''\<rparr> \<and>
   getLineInfo (Some (namedRoute ''Green'' ''Green Line'')) =
     Some \<lparr>emoji = ''B'' @ green_circle, color = ''#00843D''\<rparr> \<and>
   getLineInfo (Some (namedRoute ''741'' ''Silver Line SL1'')) = None"
proof -
  have "getLineInfo (Some (namedRoute ''Green-B'' ''Green Line B Branch'')) =
     Some \<lparr>emoji = ''B'' @ green_circle, color = ''#00843D''\<rparr>"
    by code_simp
  moreover have "getLineInfo (Some (namedRoute ''Green'' ''Green Line'')) =
     Some \<lparr>emoji = ''B'' @ green_circle, color = ''#00843D''\<rparr>"
    by code_simp
  moreover have "getLineInfo (Some (namedRoute ''741'' ''Silver Line SL1'')) = None"
    by code_simp
  moreover have "route_attributes r = Some a \<longrightarrow>
      getLineInfo (Some r) =
        classify (or_empty (js_or (long_name a) (short_name a))) (or_empty (route_id r))"
    by (simp add: getLineInfo_def classify_def classifierRules_def Let_def)
  ultimately show ?thesis
    by (simp add: getLineInfo_def)
qed

theorem getLineInfo_first_matching_rule_witness:
  "route_attributes bareRoute = None \<and> getLineInfo (Some bareRoute) = None \<and>
   route_attributes (namedRoute ''Green-D'' ''Green Line D Branch'') =
     Some \<lparr>long_name = Some ''Green Line D Branch'', short_name = None\<rparr> \<and>
   getLineInfo (Some (namedRoute ''Green-D'' ''Green Line D Branch'')) =
     classify ''Green Line D Branch'' ''Green-D'' \<and>
   classify ''Green Line D Branch'' ''Green-D'' =
     Some \<lparr>emoji = ''B'' @ green_circle, color = ''#00843D''\<rparr>"
proof -
  have "classify ''Green Line D Branch'' ''Green-D'' =
     Some \<lparr>emoji = ''B'' @ green_circle, color = ''#00843D''\<rparr>"
    by code_simp
  then show ?thesis
    using getLineInfo_first_matching_rule [of bareRoute undefined]
      getLineInfo_first_matching_rule [of "namedRoute ''Green-D'' ''Green Line D Branch''"
        "\<lparr>long_name = Some ''Green Line D Branch'', short_name = None\<rparr>"]
    by (simp add: bareRoute_def namedRoute_def or_empty_def js_or_def truthy_def)
qed

subsection \<open>The route cache\<close>

text \<open>
  C7. With a document in the cache and \<open>now - routesCacheTimestamp\<close> below 300000 ms,
  \<open>getRoutesData\<close> returns the cached document and leaves the world as it is, so it
  sends no request. In every other state it sends at least one request through
  \<open>makeApiCall\<close>; what that call returns is returned and stored with \<open>now\<close> as the
  timestamp, and what it throws is thrown.
\<close>

theorem getRoutesData_cache:
  "(routesCache w \<noteq> None \<and> now - routesCacheTimestamp w < 5 * 60 * 1000 \<longrightarrow>
      getRoutesData srv now w = (Inr (routesCache w), w)) \<and>
   (\<not> (routesCache w \<noteq> None \<and> now - routesCacheTimestamp w < 5 * 60 * 1000) \<longrightarrow>
      fetchCount w < fetchCount (snd (getRoutesData srv now w)) \<and>
      (\<forall>routesData w1. makeApiCall srv routesUrl 2 w = (Inr routesData, w1) \<longrightarrow>
         getRoutesData srv now w =
           (Inr routesData, w1\<lparr>routesCache := routesData, routesCacheTimestamp := now\<rparr>)) \<and>
      (\<forall>e w1. makeApiCall srv routesUrl 2 w = (Inl e, w1) \<longrightarrow>
         getRoutesData srv now w = (Inl e, w1)))"
  using makeApiCall_fetches [of w srv routesUrl]
  by (auto simp: getRoutesData_def CACHE_DURATION_def split: prod.splits sum.splits)

theorem getRoutesData_cache_witness:
  "routesCache cachedWorld \<noteq> None \<and> 2000 - routesCacheTimestamp cachedWorld < 5 * 60 * 1000 \<and>
   getRoutesData unreachable 2000 cachedWorld = (Inr (Some redLineDocument), cachedWorld) \<and>
   \<not> 301000 - routesCacheTimestamp cachedWorld < 5 * 60 * 1000 \<and>
   getRoutesData routesServer 301000 cachedWorld =
     (Inr (Some redLineDocument),
      \<lparr>routesCache = Some redLineDocument, routesCacheTimestamp = 301000,
       trace = [Fetch routesUrl]\<rparr>) \<and>
   getRoutesData unreachable 301000 cachedWorld =
     (Inl FetchRejected, cachedWorld\<lparr>trace := [Fetch routesUrl, Delay 2000, Fetch routesUrl]\<rparr>)"
proof -
  have hit: "routesCache cachedWorld \<noteq> None \<and>
      2000 - routesCacheTimestamp cachedWorld < 5 * 60 * 1000"
    by (simp add: cachedWorld_def)
  have miss: "\<not> (routesCache cachedWorld \<noteq> None \<and>
      301000 - routesCacheTimestamp cachedWorld < 5 * 60 * 1000)"
    by (simp add: cachedWorld_def)
  have fresh: "makeApiCall routesServer routesUrl 2 cachedWorld =
      (Inr (Some redLineDocument), cachedWorld\<lparr>trace := trace cachedWorld @ [Fetch routesUrl]\<rparr>)"
    by (rule makeApiCall_first_ok) (simp add: routesServer_def)
  have failed: "makeApiCall unreachable routesUrl 2 cachedWorld =
      (Inl FetchRejected,
       cachedWorld\<lparr>trace := trace cachedWorld @ [Fetch routesUrl, Delay 2000, Fetch routesUrl]\<rparr>)"
    by (rule makeApiCall_unreachable)
  have 1: "getRoutesData unreachable 2000 cachedWorld = (Inr (routesCache cachedWorld), cachedWorld)"
    using getRoutesData_cache [of cachedWorld 2000 unreachable] hit by blast
  have 2: "getRoutesData routesServer 301000 cachedWorld =
      (Inr (Some redLineDocument),
       cachedWorld\<lparr>trace := trace cachedWorld @ [Fetch routesUrl],
                    routesCache := Some redLineDocument, routesCacheTimestamp := 301000\<rparr>)"
    using getRoutesData_cache [of cachedWorld 301000 routesServer] miss fresh by blast
  have 3: "getRoutesData unreachable 301000 cachedWorld =
      (Inl FetchRejected,
       cachedWorld\<lparr>trace := trace cachedWorld @ [Fetch routesUrl, Delay 2000, Fetch routesUrl]\<rparr>)"
    using getRoutesData_cache [of cachedWorld 301000 unreachable] miss failed by blast
  show ?thesis
    using 1 2 3 by (simp add: cachedWorld_def)
qed

subsection \<open>Grouping the stops\<close>

lemma hasCoordinates_iff:
  "hasCoordinates stop \<longleftrightarrow>
   (\<exists>la lo. attr_latitude (stop_attributes stop) = Some la \<and> la \<noteq> 0 \<and>
            attr_longitude (stop_attributes stop) = Some lo \<and> lo \<noteq> 0)"
  by (auto simp: hasCoordinates_def truthy_num_def split: option.splits)

lemma createStationKey_hasCoordinates:
  "hasCoordinates stop \<Longrightarrow> \<exists>k. createStationKey stop = Inr k"
  by (auto simp: hasCoordinates_iff createStationKey_def)

lemma map_entry_absent: "k \<notin> fst ` set xs \<Longrightarrow> AList.map_entry k f xs = xs"
  by (induction xs) auto

lemma map_entry_append_new:
  "k \<notin> fst ` set xs \<Longrightarrow> AList.map_entry k f (xs @ [(k, v)]) = xs @ [(k, f v)]"
  by (induction xs) auto

lemma set_map_entry:
  "p \<in> set (AList.map_entry k f xs) \<Longrightarrow>
   p \<in> set xs \<or> (\<exists>v. (k, v) \<in> set xs \<and> p = (k, f v))"
  by (induction xs) (auto split: if_splits)

lemma addStop_invariant:
  assumes "hasCoordinates stop" and "\<forall>kg \<in> set acc. groupInvariant kg"
  shows "\<exists>acc'. addStop stop acc = Inr acc' \<and> (\<forall>kg \<in> set acc'. groupInvariant kg)"
proof -
  from assms(1) obtain la lo where
    la: "attr_latitude (stop_attributes stop) = Some la" and
    lo: "attr_longitude (stop_attributes stop) = Some lo"
    by (auto simp: hasCoordinates_iff)
  let ?k = "(attr_name (stop_attributes stop), toFixed6 la, toFixed6 lo)"
  have key: "createStationKey stop = Inr ?k"
    by (simp add: createStationKey_def la lo)
  let ?push = "\<lambda>g. g\<lparr>group_stops := group_stops g @ [stop]\<rparr>"
  let ?new = "\<lparr>group_stops = [], group_name = attr_name (stop_attributes stop),
      group_latitude = la, group_longitude = lo,
      group_wheelchair_accessible = (attr_wheelchair_boarding (stop_attributes stop) = Some 1)\<rparr>"
  show ?thesis
  proof (cases "map_of acc ?k")
    case None
    then have absent: "?k \<notin> fst ` set acc"
      by (simp add: map_of_eq_None_iff)
    have res: "addStop stop acc = Inr (acc @ [(?k, ?push ?new)])"
      using None by (simp add: addStop_def key la lo map_entry_append_new [OF absent])
    have "groupInvariant (?k, ?push ?new)"
      using assms(1) by (simp add: groupInvariant_def key la lo)
    with assms(2) res show ?thesis by auto
  next
    case (Some g)
    have res: "addStop stop acc = Inr (AList.map_entry ?k ?push acc)"
      using Some by (simp add: addStop_def key la lo)
    have "groupInvariant kg" if "kg \<in> set (AList.map_entry ?k ?push acc)" for kg
    proof -
      from set_map_entry [OF that] show ?thesis
      proof
        assume "kg \<in> set acc" with assms(2) show ?thesis by blast
      next
        assume "\<exists>v. (?k, v) \<in> set acc \<and> kg = (?k, ?push v)"
        then obtain v where v: "(?k, v) \<in> set acc" and kg: "kg = (?k, ?push v)" by blast
        from assms(2) v have "groupInvariant (?k, v)" by blast
        then show ?thesis
          using assms(1) unfolding kg
          by (auto simp: groupInvariant_def key split: list.splits)
      qed
    qed
    with res show ?thesis by blast
  qed
qed

lemma forEach_addStop_invariant:
  assumes "\<forall>s \<in> set stops. hasCoordinates s" and "\<forall>kg \<in> set acc. groupInvariant kg"
  shows "\<exists>acc'. forEach addStop stops acc = Inr acc' \<and> (\<forall>kg \<in> set acc'. groupInvariant kg)"
  using assms
proof (induction stops arbitrary: acc)
  case Nil
  then show ?case by simp
next
  case (Cons s stops)
  from Cons.prems obtain acc1 where
    1: "addStop s acc = Inr acc1" and 2: "\<forall>kg \<in> set acc1. groupInvariant kg"
    using addStop_invariant [of s acc] by auto
  from Cons.IH [of acc1] Cons.prems 2 1 show ?case by simp
qed

lemma groupStops_total:
  "\<exists>groups. groupStops stops = Inr groups \<and>
     (\<forall>g \<in> set groups. \<exists>k. groupInvariant (k, g))"
proof -
  obtain acc where "forEach addStop (filter hasCoordinates stops) [] = Inr acc"
    and "\<forall>kg \<in> set acc. groupInvariant kg"
    using forEach_addStop_invariant [of "filter hasCoordinates stops" "[]"] by auto
  then show ?thesis
    by (force simp: groupStops_def)
qed

subsection \<open>The three closest groups and their stations\<close>

lemma stationsWithDistance_props:
  "length (stationsWithDistance lat lon radius groups) \<le> 3 \<and>
   (\<forall>sd \<in> set (stationsWithDistance lat lon radius groups). snd sd \<le> radius \<and> fst sd \<in> set groups) \<and>
   sorted (map snd (stationsWithDistance lat lon radius groups))"
proof -
  define ys where "ys = map (\<lambda>stationGroup.
                  (stationGroup,
                   calculateDistance lat lon
                     (group_latitude stationGroup) (group_longitude stationGroup)))
               groups"
  define xs where "xs = sort_key snd (filter (\<lambda>station. snd station \<le> radius) ys)"
  have eq: "stationsWithDistance lat lon radius groups = take 3 xs"
    by (simp add: stationsWithDistance_def xs_def ys_def)
  have "sorted (map snd xs)" unfolding xs_def by (rule sorted_sort_key)
  then have "sorted (take 3 (map snd xs))" by (rule sorted_wrt_take)
  then have s: "sorted (map snd (take 3 xs))" by (simp add: take_map)
  have ys: "fst sd \<in> set groups" if "sd \<in> set ys" for sd
    using that unfolding ys_def by (induction groups) auto
  have xs: "snd sd \<le> radius \<and> sd \<in> set ys" if "sd \<in> set xs" for sd
    using that unfolding xs_def by simp
  have "snd sd \<le> radius \<and> fst sd \<in> set groups" if "sd \<in> set (take 3 xs)" for sd
  proof -
    from that have "sd \<in> set xs" by (rule in_set_takeD)
    with xs ys show ?thesis by blast
  qed
  with s show ?thesis
    unfolding eq by simp
qed

lemma fetchStopRoutes_dom:
  "dom (fst (fetchStopRoutes srv allStopIds ids m w)) = dom m \<union> set ids"
  by (induction ids arbitrary: m w) (auto simp: Let_def)

lemma fetchStopRoutes_other:
  "stopId \<notin> set ids \<Longrightarrow> fst (fetchStopRoutes srv allStopIds ids m w) stopId = m stopId"
  by (induction ids arbitrary: m w) (auto simp: Let_def)

lemma buildStation_nonempty:
  assumes "group_stops g \<noteq> []"
  shows "\<exists>st. buildStation m (g, d) = Inr st \<and> distance st = d \<and> name st = group_name g \<and>
     wheelchair_accessible st = group_wheelchair_accessible g \<and>
     latitude st = group_latitude g \<and> longitude st = group_longitude g \<and>
     station_id st = stop_id (hd (group_stops g)) \<and>
     hasRouteData st = (\<exists>stop \<in> set (group_stops g). stop_id stop \<in> dom m)"
proof -
  from assms obtain stop0 others where g: "group_stops g = stop0 # others"
    by (cases "group_stops g") auto
  show ?thesis
    by (simp add: buildStation_def Let_def list_ex_iff domIff g)
qed

lemma mapE_total:
  assumes "\<forall>x \<in> set xs. \<exists>y. f x = Inr y \<and> P x y"
  shows "\<exists>ys. mapE f xs = Inr ys \<and> list_all2 P xs ys"
  using assms
proof (induction xs)
  case Nil
  then show ?case by simp
next
  case (Cons x xs)
  then obtain y ys where "f x = Inr y" "P x y" "mapE f xs = Inr ys" "list_all2 P xs ys"
    by auto
  then show ?case by simp
qed

subsection \<open>Merging stations of the same name\<close>

lemma firstOccurrences_snoc:
  "firstOccurrences (ks @ [k]) = (if k \<in> set ks then firstOccurrences ks else firstOccurrences ks @ [k])"
  by (simp add: firstOccurrences_def)

lemma firstOccurrences_set [simp]: "set (firstOccurrences ks) = set ks"
  by (simp add: firstOccurrences_def)

lemma firstOccurrences_distinct [simp]: "distinct (firstOccurrences ks)"
  by (simp add: firstOccurrences_def)

lemma mergeInto_fields:
  "name (mergeInto station e) = name e"
  "station_id (mergeInto station e) = station_id e"
  "hasRouteData (mergeInto station e) = hasRouteData e"
  "distance (mergeInto station e) = min (distance e) (distance station)"
  "wheelchair_accessible (mergeInto station e) = (wheelchair_accessible e \<or> wheelchair_accessible station)"
  "latitude (mergeInto station e) = (if distance station < distance e then latitude station else latitude e)"
  "longitude (mergeInto station e) = (if distance station < distance e then longitude station else longitude e)"
  "routes (mergeInto station e) = mergeRoutes (routes e) (routes station)"
  by (auto simp: mergeInto_def Let_def)

lemma updateFirst_none: "\<forall>x \<in> set xs. \<not> P x \<Longrightarrow> updateFirst P f xs = xs"
  by (induction xs) auto

lemma updateFirst_split:
  "\<forall>x \<in> set ys. \<not> P x \<Longrightarrow> P e \<Longrightarrow> updateFirst P f (ys @ e # zs) = ys @ f e # zs"
  by (induction ys) auto

lemma find_split:
  "\<forall>x \<in> set ys. \<not> P x \<Longrightarrow> P e \<Longrightarrow> find P (ys @ e # zs) = Some e"
  by (induction ys) auto

lemma find_none: "\<forall>x \<in> set xs. \<not> P x \<Longrightarrow> find P xs = None"
  by (induction xs) auto

lemma mergeStep_new:
  "\<forall>u \<in> set unique. nameKey sp (name u) \<noteq> nameKey sp (name station) \<Longrightarrow>
   mergeStep sp unique station = unique @ [station]"
  by (simp add: mergeStep_def find_none)

lemma mergeStep_existing:
  "\<forall>u \<in> set ys. nameKey sp (name u) \<noteq> nameKey sp (name station) \<Longrightarrow>
   nameKey sp (name e) = nameKey sp (name station) \<Longrightarrow>
   mergeStep sp (ys @ e # zs) station = ys @ mergeInto station e # zs"
  by (simp add: mergeStep_def find_split updateFirst_split)

lemma finalStations_snoc: "finalStations sp (S @ [s]) = mergeStep sp (finalStations sp S) s"
  by (simp add: finalStations_def)

lemma mergeAll_snoc: "cls \<noteq> [] \<Longrightarrow> mergeAll (cls @ [s]) = mergeInto s (mergeAll cls)"
  by (cases cls) (simp_all add: mergeAll_def)

lemma mergeAll_name: "cls \<noteq> [] \<Longrightarrow> name (mergeAll cls) = name (hd cls)"
proof (induction cls rule: rev_induct)
  case Nil
  then show ?case by simp
next
  case (snoc s cls)
  then show ?case
    by (cases "cls = []") (simp_all add: mergeAll_snoc mergeInto_fields, simp add: mergeAll_def)
qed

lemma finalStations_classes:
  "finalStations sp S =
   map (\<lambda>k. mergeAll (filter (sameName sp k) S)) (firstOccurrences (map (\<lambda>s. nameKey sp (name s)) S))"
proof (induction S rule: rev_induct)
  case Nil
  then show ?case by (simp add: finalStations_def firstOccurrences_def)
next
  case (snoc s S)
  define key :: "station \<Rightarrow> string" where "key = (\<lambda>s. nameKey sp (name s))"
  define ks where "ks = firstOccurrences (map key S)"
  define g where "g = (\<lambda>k. mergeAll (filter (sameName sp k) S))"
  define g' where "g' = (\<lambda>k. mergeAll (filter (sameName sp k) (S @ [s])))"
  have IH: "finalStations sp S = map g ks"
    using snoc.IH by (simp add: g_def ks_def key_def)
  have set_ks: "set ks = key ` set S" and d: "distinct ks"
    by (simp_all add: ks_def)
  have keyg: "key (g k) = k" if "k \<in> set ks" for k
  proof -
    from that set_ks obtain x where "x \<in> set S" "key x = k" by auto
    then have ne: "filter (sameName sp k) S \<noteq> []"
      by (auto simp: filter_empty_conv sameName_def key_def)
    then have "hd (filter (sameName sp k) S) \<in> set (filter (sameName sp k) S)"
      by (rule hd_in_set)
    then have "key (hd (filter (sameName sp k) S)) = k" by (simp add: sameName_def key_def)
    with ne show ?thesis by (simp add: mergeAll_name g_def key_def)
  qed
  have same: "g' k = g k" if "k \<noteq> key s" for k
    using that by (simp add: sameName_def g_def g'_def key_def)
  have goal: "finalStations sp (S @ [s]) = map g' (firstOccurrences (map key S @ [key s]))
    \<Longrightarrow> ?case"
    by (simp add: g'_def key_def)
  show ?case
  proof (cases "key s \<in> set ks")
    case False
    have "key u \<noteq> key s" if "u \<in> set (map g ks)" for u
    proof -
      from that obtain k where "k \<in> set ks" "u = g k" by auto
      with keyg have "key u = k" by blast
      with \<open>k \<in> set ks\<close> False show ?thesis by auto
    qed
    then have "\<forall>u \<in> set (map g ks). nameKey sp (name u) \<noteq> nameKey sp (name s)"
      by (simp add: key_def)
    then have step: "mergeStep sp (map g ks) s = map g ks @ [s]"
      by (rule mergeStep_new)
    have eqmap: "map g ks = map g' ks"
    proof (rule map_cong [OF refl])
      fix k assume "k \<in> set ks"
      with False have "k \<noteq> key s" by auto
      then show "g k = g' k" by (simp add: same)
    qed
    have eqs: "g' (key s) = s"
    proof -
      from False set_ks have "\<forall>x \<in> set S. key x \<noteq> key s"
        by (metis imageI)
      then have "filter (sameName sp (key s)) S = []"
        by (simp add: filter_empty_conv sameName_def key_def)
      then show ?thesis by (simp add: sameName_def mergeAll_def g'_def key_def)
    qed
    have fo: "firstOccurrences (map key S @ [key s]) = ks @ [key s]"
      using False set_ks by (simp add: firstOccurrences_snoc ks_def)
    have "finalStations sp (S @ [s]) = mergeStep sp (map g ks) s"
      by (simp only: finalStations_snoc IH)
    also have "\<dots> = map g ks @ [s]"
      by (rule step)
    also have "\<dots> = map g' ks @ [g' (key s)]"
      by (simp only: eqmap eqs)
    also have "\<dots> = map g' (firstOccurrences (map key S @ [key s]))"
      by (simp only: fo map_append list.map)
    finally show ?thesis by (rule goal)
  next
    case True
    then obtain k1 k2 where ks: "ks = k1 @ key s # k2"
      by (meson split_list)
    from d ks have n1: "key s \<notin> set k1" and n2: "key s \<notin> set k2" by auto
    have in1: "set k1 \<subseteq> set ks" and in2: "set k2 \<subseteq> set ks" using ks by auto
    have "key u \<noteq> key s" if "u \<in> set (map g k1)" for u
    proof -
      from that obtain k where k: "k \<in> set k1" "u = g k" by auto
      with keyg in1 have "key u = k" by blast
      with k n1 show ?thesis by auto
    qed
    then have "\<forall>u \<in> set (map g k1). nameKey sp (name u) \<noteq> nameKey sp (name s)"
      by (simp add: key_def)
    moreover have "nameKey sp (name (g (key s))) = nameKey sp (name s)"
      using keyg [OF True] by (simp add: key_def)
    ultimately have step: "mergeStep sp (map g k1 @ g (key s) # map g k2) s =
        map g k1 @ mergeInto s (g (key s)) # map g k2"
      by (rule mergeStep_existing)
    have eq1: "map g k1 = map g' k1"
    proof (rule map_cong [OF refl])
      fix k assume "k \<in> set k1"
      with n1 have "k \<noteq> key s" by auto
      then show "g k = g' k" by (simp add: same)
    qed
    have eq2: "map g k2 = map g' k2"
    proof (rule map_cong [OF refl])
      fix k assume "k \<in> set k2"
      with n2 have "k \<noteq> key s" by auto
      then show "g k = g' k" by (simp add: same)
    qed
    have eqs: "mergeInto s (g (key s)) = g' (key s)"
    proof -
      from True set_ks obtain x where "x \<in> set S" "key x = key s"
        by (metis imageE)
      then have "filter (sameName sp (key s)) S \<noteq> []"
        by (auto simp: filter_empty_conv sameName_def key_def)
      then show ?thesis by (simp add: sameName_def mergeAll_snoc g_def g'_def key_def)
    qed
    have fo: "firstOccurrences (map key S @ [key s]) = ks"
      using True set_ks by (simp add: firstOccurrences_snoc ks_def)
    have "finalStations sp (S @ [s]) = mergeStep sp (map g k1 @ g (key s) # map g k2) s"
      by (simp only: finalStations_snoc IH ks map_append list.map)
    also have "\<dots> = map g k1 @ mergeInto s (g (key s)) # map g k2"
      by (rule step)
    also have "\<dots> = map g' k1 @ g' (key s) # map g' k2"
      by (simp only: eq1 eq2 eqs)
    also have "\<dots> = map g' (firstOccurrences (map key S @ [key s]))"
      by (simp only: fo ks map_append list.map)
    finally show ?thesis by (rule goal)
  qed
qed


lemma mergeAll_single: "mergeAll [s] = s"
  by (simp add: mergeAll_def)

lemma mergeAll_fields:
  assumes "cls \<noteq> []"
  shows "name (mergeAll cls) = name (hd cls) \<and>
    station_id (mergeAll cls) = station_id (hd cls) \<and>
    hasRouteData (mergeAll cls) = hasRouteData (hd cls) \<and>
    distance (mergeAll cls) = Min (distance ` set cls) \<and>
    wheelchair_accessible (mergeAll cls) = (\<exists>s \<in> set cls. wheelchair_accessible s)"
  using assms
proof (induction cls rule: rev_induct)
  case Nil
  then show ?case by simp
next
  case (snoc s cls)
  show ?case
  proof (cases "cls = []")
    case True
    then show ?thesis by (simp add: mergeAll_single)
  next
    case False
    with snoc.IH have IH: "name (mergeAll cls) = name (hd cls)"
      "station_id (mergeAll cls) = station_id (hd cls)"
      "hasRouteData (mergeAll cls) = hasRouteData (hd cls)"
      "distance (mergeAll cls) = Min (distance ` set cls)"
      "wheelchair_accessible (mergeAll cls) = (\<exists>s \<in> set cls. wheelchair_accessible s)"
      by simp_all
    have "Min (distance ` set (cls @ [s])) = min (Min (distance ` set cls)) (distance s)"
      using False by (simp add: min.commute)
    with False IH show ?thesis
      by (auto simp: mergeAll_snoc mergeInto_fields)
  qed
qed

lemma finalStations_member:
  assumes "m \<in> set (finalStations sp S)"
  shows "filter (sameName sp (nameKey sp (name m))) S \<noteq> [] \<and>
     m = mergeAll (filter (sameName sp (nameKey sp (name m))) S)"
proof -
  from assms obtain k where k: "k \<in> set (map (\<lambda>s. nameKey sp (name s)) S)"
    and m: "m = mergeAll (filter (sameName sp k) S)"
    unfolding finalStations_classes [of sp S] by auto
  from k obtain x where "x \<in> set S" "nameKey sp (name x) = k" by auto
  then have ne: "filter (sameName sp k) S \<noteq> []"
    by (auto simp: filter_empty_conv sameName_def)
  then have "hd (filter (sameName sp k) S) \<in> set (filter (sameName sp k) S)"
    by (rule hd_in_set)
  then have "nameKey sp (name (hd (filter (sameName sp k) S))) = k"
    by (simp add: sameName_def)
  with ne m have "nameKey sp (name m) = k"
    by (simp add: mergeAll_fields)
  with ne m show ?thesis by simp
qed

lemma finalStations_keys:
  "map (\<lambda>s. nameKey sp (name s)) (finalStations sp S) = firstOccurrences (map (\<lambda>s. nameKey sp (name s)) S)"
proof -
  let ?ks = "firstOccurrences (map (\<lambda>s. nameKey sp (name s)) S)"
  have "nameKey sp (name (mergeAll (filter (sameName sp k) S))) = k" if "k \<in> set ?ks" for k
  proof -
    from that obtain x where "x \<in> set S" "nameKey sp (name x) = k" by auto
    then have ne: "filter (sameName sp k) S \<noteq> []"
      by (auto simp: filter_empty_conv sameName_def)
    then have "hd (filter (sameName sp k) S) \<in> set (filter (sameName sp k) S)"
      by (rule hd_in_set)
    then have "nameKey sp (name (hd (filter (sameName sp k) S))) = k"
      by (simp add: sameName_def)
    with ne show ?thesis by (simp add: mergeAll_fields)
  qed
  then have "map (\<lambda>k. nameKey sp (name (mergeAll (filter (sameName sp k) S)))) ?ks = map (\<lambda>k. k) ?ks"
    by (intro map_cong [OF refl])
  then show ?thesis
    by (simp add: finalStations_classes [of sp S] comp_def)
qed

lemma finalStations_hasRouteData:
  assumes "\<forall>s \<in> set S. hasRouteData s" and "m \<in> set (finalStations sp S)"
  shows "hasRouteData m"
proof -
  let ?C = "filter (sameName sp (nameKey sp (name m))) S"
  from finalStations_member [OF assms(2)] have ne: "?C \<noteq> []" and m: "m = mergeAll ?C"
    by simp_all
  from ne have "hd ?C \<in> set ?C" by (rule hd_in_set)
  then have "hd ?C \<in> set S" by simp
  with assms(1) have "hasRouteData (hd ?C)" by blast
  with ne m mergeAll_fields [OF ne] show ?thesis by simp
qed

lemma mergeStep_distances:
  assumes "\<forall>u \<in> set U. distance u \<le> distance s"
  shows "map distance (mergeStep sp U s) = map distance U \<or>
         map distance (mergeStep sp U s) = map distance U @ [distance s]"
proof (cases "\<exists>u \<in> set U. nameKey sp (name u) = nameKey sp (name s)")
  case False
  then have "mergeStep sp U s = U @ [s]" by (intro mergeStep_new) blast
  then show ?thesis by simp
next
  case True
  then obtain ys e zs where U: "U = ys @ e # zs" and e: "nameKey sp (name e) = nameKey sp (name s)"
    and ys: "\<forall>u \<in> set ys. nameKey sp (name u) \<noteq> nameKey sp (name s)"
    using split_list_first_prop [of U "\<lambda>u. nameKey sp (name u) = nameKey sp (name s)"] by blast
  have "mergeStep sp (ys @ e # zs) s = ys @ mergeInto s e # zs"
    using ys e by (rule mergeStep_existing)
  moreover from assms U have "distance e \<le> distance s" by simp
  then have "distance (mergeInto s e) = distance e" by (simp add: mergeInto_fields)
  ultimately show ?thesis by (simp add: U)
qed

lemma length_updateFirst [simp]: "length (updateFirst P f xs) = length xs"
  by (induction xs) auto

lemma mergeStep_length: "length (mergeStep sp U s) \<le> Suc (length U)"
  by (simp add: mergeStep_def Let_def split: option.splits)

lemma finalStations_sorted:
  assumes "sorted (map distance S)"
  shows "sorted (map distance (finalStations sp S)) \<and>
     set (map distance (finalStations sp S)) \<subseteq> set (map distance S) \<and>
     length (finalStations sp S) \<le> length S"
  using assms
proof (induction S rule: rev_induct)
  case Nil
  then show ?case by (simp add: finalStations_def)
next
  case (snoc s S)
  from snoc.prems have sS: "sorted (map distance S)" and le: "\<forall>x \<in> set S. distance x \<le> distance s"
    by (auto simp: sorted_append)
  from snoc.IH [OF sS] have IH: "sorted (map distance (finalStations sp S))"
    "set (map distance (finalStations sp S)) \<subseteq> set (map distance S)"
    "length (finalStations sp S) \<le> length S"
    by simp_all
  from IH(2) le have le': "\<forall>u \<in> set (finalStations sp S). distance u \<le> distance s"
    by auto
  have len: "length (mergeStep sp (finalStations sp S) s) \<le> Suc (length S)"
    using mergeStep_length [of sp "finalStations sp S" s] IH(3) by simp
  from mergeStep_distances [where sp = sp, OF le'] show ?case
  proof
    assume "map distance (mergeStep sp (finalStations sp S) s) = map distance (finalStations sp S)"
    with IH len show ?thesis by (auto simp: finalStations_snoc)
  next
    assume eq: "map distance (mergeStep sp (finalStations sp S) s) =
      map distance (finalStations sp S) @ [distance s]"
    have "sorted (map distance (finalStations sp S) @ [distance s])"
      using IH(1) le' by (simp add: sorted_append)
    with eq IH len show ?thesis by (auto simp: finalStations_snoc)
  qed
qed

subsection \<open>The resolver\<close>

lemma resolveStations_result:
  "\<exists>groups sts w'.
     groupStops stops = Inr groups \<and>
     (\<forall>g \<in> set groups. \<exists>k. groupInvariant (k, g)) \<and>
     list_all2 stationFromGroup (stationsWithDistance lat lon radius groups) sts \<and>
     resolveStations sp srv lat lon radius stops w = (Inr (finalStations sp sts), w')"
proof -
  obtain groups where g: "groupStops stops = Inr groups"
    and inv: "\<forall>g \<in> set groups. \<exists>k. groupInvariant (k, g)"
    using groupStops_total [of stops] by blast
  define wd where "wd = stationsWithDistance lat lon radius groups"
  define ids where "ids = concat (map (\<lambda>station. map stop_id (group_stops (fst station))) (take 3 wd))"
  define fetched where "fetched = fetchStopRoutes srv ids ids Map.empty w"
  have wd3: "take 3 wd = wd"
    using stationsWithDistance_props [of lat lon radius groups] by (simp add: wd_def)
  have dom: "dom (fst fetched) = set ids"
    by (simp add: fetched_def fetchStopRoutes_dom)
  have each: "\<exists>st. buildStation (fst fetched) sd = Inr st \<and> stationFromGroup sd st"
    if "sd \<in> set wd" for sd
  proof -
    from that stationsWithDistance_props [of lat lon radius groups]
    have "fst sd \<in> set groups" by (simp add: wd_def)
    with inv obtain k where "groupInvariant (k, fst sd)" by blast
    then have ne: "group_stops (fst sd) \<noteq> []"
      by (auto simp: groupInvariant_def split: list.splits)
    then have "hd (group_stops (fst sd)) \<in> set (group_stops (fst sd))" by (rule hd_in_set)
    with that have "stop_id (hd (group_stops (fst sd))) \<in> set ids"
      unfolding ids_def wd3 by auto
    with dom have "\<exists>stop \<in> set (group_stops (fst sd)). stop_id stop \<in> dom (fst fetched)"
      using \<open>hd (group_stops (fst sd)) \<in> set (group_stops (fst sd))\<close> by blast
    with buildStation_nonempty [OF ne, of "fst fetched" "snd sd"] show ?thesis
      by (auto simp: stationFromGroup_def)
  qed
  then have "\<forall>sd \<in> set wd. \<exists>st. buildStation (fst fetched) sd = Inr st \<and> stationFromGroup sd st"
    by blast
  from mapE_total [OF this] obtain sts where
    sts: "mapE (buildStation (fst fetched)) wd = Inr sts" and all2: "list_all2 stationFromGroup wd sts"
    by blast
  have "resolveStations sp srv lat lon radius stops w = (Inr (finalStations sp sts), snd fetched)"
    using sts by (simp add: resolveStations_def g Let_def wd_def [symmetric] ids_def [symmetric]
        fetched_def [symmetric])
  with g inv all2 show ?thesis
    unfolding wd_def by blast
qed

lemma stationFromGroup_distances:
  "list_all2 stationFromGroup wd sts \<Longrightarrow>
   map distance sts = map snd wd \<and>
   map (\<lambda>s. nameKey sp (name s)) sts = map (\<lambda>sd. nameKey sp (group_name (fst sd))) wd \<and>
   (\<forall>s \<in> set sts. hasRouteData s)"
  by (induction wd sts rule: list_all2_induct) (auto simp: stationFromGroup_def)

lemma fetchNearbyStations_Inr:
  assumes "fetchNearbyStations sp net lat lon radius now w = (Inr stations, w')"
  shows "\<exists>stops w2. resolveStations sp (routes_api net) lat lon radius stops w2 = (Inr stations, w')"
  using assms
  by (auto simp: fetchNearbyStations_def split: prod.splits sum.splits option.splits)

lemma finalStations_subseq:
  assumes "sorted (map distance S)"
  shows "subseq (map distance (finalStations sp S)) (map distance S)"
  using assms
proof (induction S rule: rev_induct)
  case Nil
  then show ?case by (simp add: finalStations_def)
next
  case (snoc s S)
  from snoc.prems have sS: "sorted (map distance S)" and le: "\<forall>x \<in> set S. distance x \<le> distance s"
    by (auto simp: sorted_append)
  from finalStations_sorted [where sp = sp, OF sS] le
  have le': "\<forall>u \<in> set (finalStations sp S). distance u \<le> distance s"
    by auto
  from mergeStep_distances [where sp = sp, OF le'] show ?case
  proof
    assume "map distance (mergeStep sp (finalStations sp S) s) = map distance (finalStations sp S)"
    with snoc.IH [OF sS] show ?thesis
      by (simp add: finalStations_snoc list_emb_prefix)
  next
    assume "map distance (mergeStep sp (finalStations sp S) s) =
      map distance (finalStations sp S) @ [distance s]"
    with snoc.IH [OF sS] show ?thesis
      by (simp add: finalStations_snoc)
  qed
qed

lemma fetchStopRoutes_failed_stop:
  assumes "fst (makeApiCall srv (stopRoutesUrl stopId) 2
                 (if Some stopId \<noteq> first allStopIds then delay 500 w else w)) = Inl e \<or>
           fst (makeApiCall srv (stopRoutesUrl stopId) 2
                 (if Some stopId \<noteq> first allStopIds then delay 500 w else w)) = Inr None"
    and "stopId \<notin> set rest"
  shows "fst (fetchStopRoutes srv allStopIds (stopId # rest) stopRoutesMap w) stopId = Some []"
  using assms by (auto simp add: Let_def fetchStopRoutes_other storedRoutes_def)

lemma resolveStations_full:
  "\<exists>stations w' groups.
     resolveStations sp srv lat lon radius stops w = (Inr stations, w') \<and>
     (\<forall>s \<in> set stations. hasRouteData s) \<and>
     groupStops stops = Inr groups \<and>
     map (\<lambda>s. nameKey sp (name s)) stations =
       firstOccurrences (map (\<lambda>sd. nameKey sp (group_name (fst sd)))
                             (stationsWithDistance lat lon radius groups))"
proof -
  from resolveStations_result [of stops lat lon radius sp srv w]
  obtain groups sts w' where g: "groupStops stops = Inr groups"
    and all2: "list_all2 stationFromGroup (stationsWithDistance lat lon radius groups) sts"
    and r: "resolveStations sp srv lat lon radius stops w = (Inr (finalStations sp sts), w')"
    by blast
  from stationFromGroup_distances [OF all2]
  have names: "map (\<lambda>s. nameKey sp (name s)) sts =
      map (\<lambda>sd. nameKey sp (group_name (fst sd))) (stationsWithDistance lat lon radius groups)"
    and has: "\<forall>s \<in> set sts. hasRouteData s"
    by simp_all
  from has have "\<forall>s \<in> set (finalStations sp sts). hasRouteData s"
    using finalStations_hasRouteData by blast
  with g r names show ?thesis
    by (simp add: finalStations_keys)
qed

subsection \<open>The union of two route lists\<close>

lemma set_update_subset: "set (AList.update k v al) \<subseteq> insert (k, v) (set al)"
  by (induction al) auto

lemma keyed_setRoute: "keyed al \<Longrightarrow> keyed (setRoute r al)"
  using set_update_subset [of "info_id r" r al]
  by (auto simp: keyed_def setRoute_def distinct_update list_all_iff)

lemma setRoute_keys: "fst ` set (setRoute r al) = insert (info_id r) (fst ` set al)"
  by (simp add: setRoute_def dom_update)

lemma setRoute_member: "kr \<in> set (setRoute r al) \<Longrightarrow> kr \<in> set al \<or> snd kr = r"
  using set_update_subset [of "info_id r" r al] by (auto simp: setRoute_def)

lemma fold_setRoute_keyed: "keyed al \<Longrightarrow> keyed (fold setRoute rs al)"
  by (induction rs arbitrary: al) (simp_all add: keyed_setRoute)

lemma fold_setRoute_keys:
  "fst ` set (fold setRoute rs al) = fst ` set al \<union> info_id ` set rs"
  by (induction rs arbitrary: al) (auto simp: setRoute_keys)

lemma fold_setRoute_member:
  "kr \<in> set (fold setRoute rs al) \<Longrightarrow> kr \<in> set al \<or> snd kr \<in> set rs"
proof (induction rs arbitrary: al)
  case Nil
  then show ?case by simp
next
  case (Cons r rs)
  from Cons.prems have "kr \<in> set (fold setRoute rs (setRoute r al))" by simp
  from Cons.IH [OF this] setRoute_member [of kr r al] show ?case by auto
qed

lemma fold_setIfAbsent_keyed: "keyed al \<Longrightarrow> keyed (fold setIfAbsent rs al)"
  by (induction rs arbitrary: al) (simp_all add: keyed_setRoute)

lemma fold_setIfAbsent_keys:
  "fst ` set (fold setIfAbsent rs al) = fst ` set al \<union> info_id ` set rs"
proof (induction rs arbitrary: al)
  case Nil
  then show ?case by simp
next
  case (Cons r rs)
  show ?case
  proof (cases "map_of al (info_id r) = None")
    case True
    with Cons.IH [of "setRoute r al"] show ?thesis by (auto simp: setRoute_keys)
  next
    case False
    then have "info_id r \<in> fst ` set al" by (simp add: map_of_eq_None_iff)
    with Cons.IH [of al] False show ?thesis by auto
  qed
qed

lemma fold_setIfAbsent_member:
  "kr \<in> set (fold setIfAbsent rs al) \<Longrightarrow> kr \<in> set al \<or> snd kr \<in> set rs"
proof (induction rs arbitrary: al)
  case Nil
  then show ?case by simp
next
  case (Cons r rs)
  show ?case
  proof (cases "map_of al (info_id r) = None")
    case True
    with Cons.prems have "kr \<in> set (fold setIfAbsent rs (setRoute r al))" by simp
    from Cons.IH [OF this] setRoute_member [of kr r al] show ?thesis by auto
  next
    case False
    with Cons.prems have "kr \<in> set (fold setIfAbsent rs al)" by simp
    from Cons.IH [OF this] show ?thesis by auto
  qed
qed

lemma keyed_ids: "keyed al \<Longrightarrow> map info_id (map snd al) = map fst al"
  by (induction al) (auto simp: keyed_def)

lemma mergeRoutes_union:
  "set (map info_id (mergeRoutes A B)) = set (map info_id A) \<union> set (map info_id B) \<and>
   distinct (map info_id (mergeRoutes A B)) \<and>
   set (mergeRoutes A B) \<subseteq> set A \<union> set B"
proof -
  define al where "al = fold setRoute A []"
  define m where "m = fold setIfAbsent B al"
  have k0: "keyed []" by (simp add: keyed_def)
  have k2: "keyed m"
    unfolding m_def al_def by (intro fold_setIfAbsent_keyed fold_setRoute_keyed k0)
  have f2: "fst ` set m = info_id ` set A \<union> info_id ` set B"
    unfolding m_def al_def by (simp add: fold_setIfAbsent_keys fold_setRoute_keys)
  have s2: "snd kr \<in> set A \<union> set B" if "kr \<in> set m" for kr
  proof -
    from that have "kr \<in> set al \<or> snd kr \<in> set B"
      unfolding m_def by (rule fold_setIfAbsent_member)
    moreover have "snd kr \<in> set A" if "kr \<in> set al"
      using fold_setRoute_member [of kr A "[]"] that unfolding al_def by simp
    ultimately show ?thesis by blast
  qed
  have eq: "mergeRoutes A B = map snd m" by (simp add: mergeRoutes_def m_def al_def)
  have ids: "map info_id (mergeRoutes A B) = map fst m"
    unfolding eq by (rule keyed_ids [OF k2])
  have "set (map fst m) = set (map info_id A) \<union> set (map info_id B)"
    using f2 by simp
  moreover have "distinct (map fst m)" using k2 by (simp add: keyed_def)
  moreover have "set (map snd m) \<subseteq> set A \<union> set B" using s2 by auto
  ultimately show ?thesis unfolding ids unfolding eq by blast
qed

subsection \<open>Evaluating the example\<close>

lemma groupStops_platforms:
  "groupStops [platform i a, platform j b] =
   Inr [parkStreetGroup [platform i a, platform j b] (a = 1)]"
  by (simp add: groupStops_def hasCoordinates_def truthy_num_def platform_def addStop_def
      createStationKey_def parkStreetGroup_def)

lemma stationsWithDistance_single:
  "d \<le> radius \<Longrightarrow> d = calculateDistance lat lon (group_latitude g) (group_longitude g) \<Longrightarrow>
   stationsWithDistance lat lon radius [g] = [(g, d)]"
  by (simp add: stationsWithDistance_def)

lemma storedRoutes_redLine: "storedRoutes (Inr (Some redLineDocument)) = [redLineInfo]"
  by code_simp

lemma makeApiCall_routesServer:
  "makeApiCall routesServer url 2 w =
   (Inr (Some redLineDocument), w\<lparr>trace := trace w @ [Fetch url]\<rparr>)"
  by (rule makeApiCall_first_ok) (simp add: routesServer_def)

lemma fetchStopRoutes_two_ok:
  assumes "i \<noteq> j"
  shows "fetchStopRoutes routesServer [i, j] [i, j] Map.empty w =
    ([i \<mapsto> [redLineInfo], j \<mapsto> [redLineInfo]],
     w\<lparr>trace := trace w @ [Fetch (stopRoutesUrl i), Delay 500, Fetch (stopRoutesUrl j)]\<rparr>)"
  using assms
  by (simp add: Let_def first_def makeApiCall_routesServer storedRoutes_redLine delay_def)

lemma fetchStopRoutes_two_failed:
  assumes "i \<noteq> j"
  shows "fetchStopRoutes unreachable [i, j] [i, j] Map.empty w =
    ([i \<mapsto> [], j \<mapsto> []],
     w\<lparr>trace := trace w @
        [Fetch (stopRoutesUrl i), Delay 2000, Fetch (stopRoutesUrl i), Delay 500,
         Fetch (stopRoutesUrl j), Delay 2000, Fetch (stopRoutesUrl j)]\<rparr>)"
  using assms
  by (simp add: Let_def first_def makeApiCall_unreachable storedRoutes_def delay_def)

lemma calculateDistance_same: "calculateDistance la lo la lo = 0"
  by (simp add: calculateDistance_def atan2_def)

lemma resolveStations_platforms:
  assumes "i \<noteq> j"
    and d: "d = calculateDistance lat lon 42.3554 (- 71.0640)" and "d \<le> radius"
    and f: "fetchStopRoutes srv [i, j] [i, j] Map.empty w = (m, w')"
    and m: "m i = Some ri" "m j = Some rj"
  shows "resolveStations sp srv lat lon radius [platform i a, platform j b] w =
    (Inr [parkStreetStation i d (a = 1) (map snd (fold setRoute rj (fold setRoute ri [])))], w')"
proof -
  let ?g = "parkStreetGroup [platform i a, platform j b] (a = 1)"
  have wd: "stationsWithDistance lat lon radius [?g] = [(?g, d)]"
    using assms(3) d by (intro stationsWithDistance_single) (simp_all add: parkStreetGroup_def)
  have ids: "concat (map (\<lambda>station. map stop_id (group_stops (fst station))) (take 3 [(?g, d)]))
      = [i, j]"
    by (simp add: parkStreetGroup_def platform_def)
  have b: "buildStation m (?g, d) =
      Inr (parkStreetStation i d (a = 1) (map snd (fold setRoute rj (fold setRoute ri []))))"
    using m by (simp add: buildStation_def parkStreetGroup_def platform_def collectRoutes_def
        parkStreetStation_def)
  have fs: "finalStations sp [s] = [s]" for s
    by (simp add: finalStations_def mergeStep_def)
  have me: "mapE (buildStation m) [(?g, d)] =
      Inr [parkStreetStation i d (a = 1) (map snd (fold setRoute rj (fold setRoute ri [])))]"
    by (simp add: b)
  show ?thesis
    unfolding resolveStations_def
    by (simp only: groupStops_platforms sum.case Let_def wd ids f fst_conv snd_conv me fs)
qed

lemma fetchNearbyStations_resolve:
  assumes "getRoutesData (routes_api net) now w = (Inr (Some routesData), w1)"
    and "makeApiCall (stops_api net) stopsUrl 2 w1 = (Inr (Some d), w2)"
    and "data d = Some stops"
  shows "fetchNearbyStations sp net lat lon radius now w =
    resolveStations sp (routes_api net) lat lon radius stops w2"
  using assms by (simp add: fetchNearbyStations_def)

lemma getRoutesData_world0:
  assumes "srv 0 routesUrl = Response 200 (Some redLineDocument)"
  shows "getRoutesData srv now world0 =
    (Inr (Some redLineDocument),
     \<lparr>routesCache = Some redLineDocument, routesCacheTimestamp = now, trace = [Fetch routesUrl]\<rparr>)"
proof -
  have "makeApiCall srv routesUrl 2 world0 =
      (Inr (Some redLineDocument), world0\<lparr>trace := trace world0 @ [Fetch routesUrl]\<rparr>)"
    using assms by (intro makeApiCall_first_ok) (simp add: fetchCount_def world0_def)
  then show ?thesis
    by (simp add: getRoutesData_def world0_def)
qed

lemma makeApiCall_stopsServer:
  "makeApiCall (stopsServer d) url 2 w = (Inr (Some d), w\<lparr>trace := trace w @ [Fetch url]\<rparr>)"
  by (rule makeApiCall_first_ok) (simp add: stopsServer_def)

lemma parkStreet_resolution:
  assumes "d = calculateDistance lat lon 42.3554 (- 71.0640)" and "d \<le> radius"
  shows "fetchNearbyStations sp (parkStreetNet a b) lat lon radius now world0 =
    (Inr [parkStreetStation ''70075'' d (a = 1) [redLineInfo]],
     afterRoutes now
       [Fetch (stopRoutesUrl ''70075''), Delay 500, Fetch (stopRoutesUrl ''70076'')])"
proof -
  let ?w1 = "\<lparr>routesCache = Some redLineDocument, routesCacheTimestamp = now,
     trace = [Fetch routesUrl]\<rparr>"
  have 1: "getRoutesData (routes_api (parkStreetNet a b)) now world0 =
      (Inr (Some redLineDocument), ?w1)"
    by (simp add: parkStreetNet_def getRoutesData_world0 routesServer_def)
  have 2: "makeApiCall (stops_api (parkStreetNet a b)) stopsUrl 2 ?w1 =
      (Inr (Some (parkStreetStops a b)), afterRoutes now [])"
    by (simp add: parkStreetNet_def makeApiCall_stopsServer afterRoutes_def)
  have 3: "data (parkStreetStops a b) = Some [platform ''70075'' a, platform ''70076'' b]"
    by (simp add: parkStreetStops_def)
  have ne: "''70075'' \<noteq> ''70076''" by simp
  have 4: "fetchStopRoutes routesServer [''70075'', ''70076''] [''70075'', ''70076''] Map.empty
        (afterRoutes now []) =
      ([''70075'' \<mapsto> [redLineInfo], ''70076'' \<mapsto> [redLineInfo]],
       afterRoutes now
         [Fetch (stopRoutesUrl ''70075''), Delay 500, Fetch (stopRoutesUrl ''70076'')])"
    unfolding fetchStopRoutes_two_ok [OF ne] by (simp add: afterRoutes_def)
  have 5: "resolveStations sp routesServer lat lon radius
        [platform ''70075'' a, platform ''70076'' b] (afterRoutes now []) =
      (Inr [parkStreetStation ''70075'' d (a = 1)
              (map snd (fold setRoute [redLineInfo] (fold setRoute [redLineInfo] [])))],
       afterRoutes now
         [Fetch (stopRoutesUrl ''70075''), Delay 500, Fetch (stopRoutesUrl ''70076'')])"
    by (rule resolveStations_platforms [OF ne assms 4]) simp_all
  have 6: "map snd (fold setRoute [redLineInfo] (fold setRoute [redLineInfo] [])) = [redLineInfo]"
    by (simp add: setRoute_def)
  have "routes_api (parkStreetNet a b) = routesServer" by (simp add: parkStreetNet_def)
  with fetchNearbyStations_resolve [OF 1 2 3, of sp lat lon radius] 5 6 show ?thesis
    by simp
qed

lemma makeApiCall_rejected:
  assumes "srv (fetchCount w) url = Rejected" and "srv (Suc (fetchCount w)) url = Rejected"
  shows "makeApiCall srv url 2 w =
    (Inl FetchRejected, w\<lparr>trace := trace w @ [Fetch url, Delay 2000, Fetch url]\<rparr>)"
proof -
  let ?w1 = "delay (2 ^ 1 * 1000) (w\<lparr>trace := trace w @ [Fetch url]\<rparr>)"
  have "makeApiCall_from srv url 2 1 w = makeApiCall_from srv url 2 (1 + 1) ?w1"
    using assms by (intro makeApiCall_from_Throw_retry) (simp_all add: tryAttempt_simps)
  moreover have "makeApiCall_from srv url 2 (1 + 1) ?w1 =
      (Inl FetchRejected, ?w1\<lparr>trace := trace ?w1 @ [Fetch url]\<rparr>)"
    using assms by (intro makeApiCall_from_Throw_last) (simp_all add: tryAttempt_simps)
  ultimately show ?thesis
    by (simp add: makeApiCall_def delay_def)
qed

lemma makeApiCall_routesThenDown:
  assumes "0 < fetchCount w"
  shows "makeApiCall routesThenDown url 2 w =
    (Inl FetchRejected, w\<lparr>trace := trace w @ [Fetch url, Delay 2000, Fetch url]\<rparr>)"
  using assms by (intro makeApiCall_rejected) (simp_all add: routesThenDown_def)

lemma degraded_resolution:
  "fetchNearbyStations sp degradedNet 42.3554 (- 71.0640) 1.25 now world0 =
    (Inr [parkStreetStation ''70075'' 0 True []],
     afterRoutes now
       [Fetch (stopRoutesUrl ''70075''), Delay 2000, Fetch (stopRoutesUrl ''70075''), Delay 500,
        Fetch (stopRoutesUrl ''70076''), Delay 2000, Fetch (stopRoutesUrl ''70076'')])"
proof -
  let ?w1 = "\<lparr>routesCache = Some redLineDocument, routesCacheTimestamp = now,
     trace = [Fetch routesUrl]\<rparr>"
  let ?t = "[Fetch (stopRoutesUrl ''70075''), Delay 2000, Fetch (stopRoutesUrl ''70075''), Delay 500,
        Fetch (stopRoutesUrl ''70076''), Delay 2000, Fetch (stopRoutesUrl ''70076'')]"
  have 1: "getRoutesData (routes_api degradedNet) now world0 = (Inr (Some redLineDocument), ?w1)"
    by (simp add: degradedNet_def getRoutesData_world0 routesThenDown_def)
  have 2: "makeApiCall (stops_api degradedNet) stopsUrl 2 ?w1 =
      (Inr (Some (parkStreetStops 1 0)), afterRoutes now [])"
    by (simp add: degradedNet_def makeApiCall_stopsServer afterRoutes_def)
  have 3: "data (parkStreetStops 1 0) = Some [platform ''70075'' 1, platform ''70076'' 0]"
    by (simp add: parkStreetStops_def)
  have ne: "''70075'' \<noteq> ''70076''" by simp
  have fc: "0 < fetchCount (afterRoutes now [])"
    by (simp add: fetchCount_def afterRoutes_def)
  let ?wa = "(afterRoutes now [])\<lparr>trace := trace (afterRoutes now []) @
      [Fetch (stopRoutesUrl ''70075''), Delay 2000, Fetch (stopRoutesUrl ''70075'')]\<rparr>"
  have a: "makeApiCall routesThenDown (stopRoutesUrl ''70075'') 2 (afterRoutes now []) =
      (Inl FetchRejected, ?wa)"
    by (rule makeApiCall_routesThenDown [OF fc])
  have fc2: "0 < fetchCount (delay 500 ?wa)"
    by (simp add: fetchCount_def afterRoutes_def delay_def)
  have b: "makeApiCall routesThenDown (stopRoutesUrl ''70076'') 2 (delay 500 ?wa) =
      (Inl FetchRejected, (delay 500 ?wa)\<lparr>trace := trace (delay 500 ?wa) @
        [Fetch (stopRoutesUrl ''70076''), Delay 2000, Fetch (stopRoutesUrl ''70076'')]\<rparr>)"
    by (rule makeApiCall_routesThenDown [OF fc2])
  have 4: "fetchStopRoutes routesThenDown [''70075'', ''70076''] [''70075'', ''70076''] Map.empty
        (afterRoutes now []) =
      ([''70075'' \<mapsto> [], ''70076'' \<mapsto> []], afterRoutes now ?t)"
    by (simp add: Let_def first_def a b storedRoutes_def) (simp add: afterRoutes_def delay_def)
  have d0: "(0::real) = calculateDistance 42.3554 (- 71.0640) 42.3554 (- 71.0640)"
    by (simp add: calculateDistance_same)
  have 5: "resolveStations sp routesThenDown 42.3554 (- 71.0640) 1.25
        [platform ''70075'' 1, platform ''70076'' 0] (afterRoutes now []) =
      (Inr [parkStreetStation ''70075'' 0 (1 = (1::int))
              (map snd (fold setRoute [] (fold setRoute [] [])))],
       afterRoutes now ?t)"
    by (rule resolveStations_platforms [OF ne d0 _ 4]) simp_all
  have "routes_api degradedNet = routesThenDown" by (simp add: degradedNet_def)
  with fetchNearbyStations_resolve [OF 1 2 3, of sp "42.3554" "- 71.0640" "1.25"] 5 show ?thesis
    by simp
qed

subsection \<open>Bounds for the distance of the example\<close>

lemma arctan_series_bounds:
  fixes x :: real
  assumes "0 \<le> x" and "x \<le> 1"
  shows "x - x ^ 3 / 3 \<le> arctan x" and "arctan x \<le> x - x ^ 3 / 3 + x ^ 5 / 5"
    and "arctan x \<le> x"
proof -
  define a where "a = (\<lambda>n. 1 / real (n * 2 + 1) * x ^ (n * 2 + 1))"
  have zero: "a \<longlonglongrightarrow> 0"
    unfolding a_def using assms by (intro zeroseq_arctan_series) simp
  have pos: "0 \<le> a n" for n
    unfolding a_def using assms by simp
  have mono: "a (Suc n) \<le> a n" for n
  proof -
    have "x ^ (Suc n * 2 + 1) \<le> x ^ (n * 2 + 1)"
      using assms by (intro power_decreasing) simp_all
    moreover have "1 / real (Suc n * 2 + 1) \<le> 1 / real (n * 2 + 1)"
      by (simp add: field_simps)
    ultimately show ?thesis
      unfolding a_def using assms by (intro mult_mono) simp_all
  qed
  have eq: "arctan x = (\<Sum>k. (- 1) ^ k * a k)"
    unfolding a_def using assms by (intro arctan_series) simp
  from summable_Leibniz'(2) [OF zero pos mono, of 1]
  show "x - x ^ 3 / 3 \<le> arctan x"
    unfolding eq [symmetric] by (simp add: a_def eval_nat_numeral)
  from summable_Leibniz'(4) [OF zero pos mono, of 1]
  show "arctan x \<le> x - x ^ 3 / 3 + x ^ 5 / 5"
    unfolding eq [symmetric] by (simp add: a_def eval_nat_numeral)
  from summable_Leibniz'(4) [OF zero pos mono, of 0]
  show "arctan x \<le> x"
    unfolding eq [symmetric] by (simp add: a_def)
qed

lemma pi_bounds: "3.14 < pi" "pi < 3.142"
proof -
  have l5: "(1/5) - (1/5) ^ 3 / 3 \<le> arctan (1/5)"
    and u5: "arctan (1/5) \<le> (1/5) - (1/5) ^ 3 / 3 + (1/5) ^ 5 / 5"
    by (rule arctan_series_bounds; simp)+
  have l239: "(1/239) - (1/239) ^ 3 / 3 \<le> arctan (1/239)"
    and u239: "arctan (1/239) \<le> 1/239"
    by (rule arctan_series_bounds; simp)+
  have "pi = 16 * arctan (1/5) - 4 * arctan (1/239)"
    using machin by simp
  with l5 u5 l239 u239 show "3.14 < pi" "pi < 3.142"
    by (simp_all add: power3_eq_cube power_def) 
qed

lemma sin_lower: "0 \<le> x \<Longrightarrow> x - x ^ 3 / 6 \<le> sin x" for x :: real
  using Maclaurin_sin_bound [of x 3]
  by (simp add: numeral_3_eq_3 sin_coeff_def fact_numeral abs_if split: if_splits)

lemma cos_bounds: "1 - x\<^sup>2 / 2 \<le> cos x" "cos x \<le> 1 - x\<^sup>2 / 2 + x ^ 4 / 24" for x :: real
proof -
  have s2: "(\<Sum>m<2. cos_coeff m * x ^ m) = 1"
  proof -
    have "{..<2::nat} = {0, 1}" by auto
    then show ?thesis by (simp add: cos_coeff_def)
  qed
  have s4: "(\<Sum>m<4. cos_coeff m * x ^ m) = 1 - x\<^sup>2 / 2"
  proof -
    have "{..<4::nat} = {0, 1, 2, 3}" by auto
    then show ?thesis by (simp add: cos_coeff_def)
  qed
  from Maclaurin_cos_expansion [of x 2] obtain t where
    "cos x = (\<Sum>m<2. cos_coeff m * x ^ m) + (cos (t + 1/2 * real 2 * pi) / fact 2) * x ^ 2"
    by blast
  then have "cos x = 1 - cos t / 2 * x\<^sup>2"
    unfolding s2 by simp
  moreover have "cos t / 2 * x\<^sup>2 \<le> 1 / 2 * x\<^sup>2"
    by (intro mult_right_mono) simp_all
  ultimately show "1 - x\<^sup>2 / 2 \<le> cos x" by simp
  from Maclaurin_cos_expansion [of x 4] obtain t where
    "cos x = (\<Sum>m<4. cos_coeff m * x ^ m) + (cos (t + 1/2 * real 4 * pi) / fact 4) * x ^ 4"
    by blast
  then have "cos x = 1 - x\<^sup>2 / 2 + cos t / 24 * x ^ 4"
    unfolding s4 by (simp add: fact_numeral)
  moreover have "cos t / 24 * x ^ 4 \<le> 1 / 24 * x ^ 4"
    by (intro mult_right_mono) simp_all
  ultimately show "cos x \<le> 1 - x\<^sup>2 / 2 + x ^ 4 / 24" by simp
qed

lemma haversine_angle_bounds:
  fixes a uL uU :: real
  assumes "0 \<le> uL" "uL \<le> 1" "uL\<^sup>2 \<le> a" "a < 1" "0 \<le> uU" "uU \<le> 1" "a \<le> uU\<^sup>2 * (1 - a)"
  shows "uL - uL ^ 3 / 3 \<le> atan2 (sqrt a) (sqrt (1 - a))"
    and "atan2 (sqrt a) (sqrt (1 - a)) \<le> uU"
proof -
  have a0: "0 \<le> a" using assms(3) by (meson order_trans zero_le_power2)
  have pos: "0 < sqrt (1 - a)" using assms(4) by simp
  have le1: "sqrt (1 - a) \<le> 1" using a0 by simp
  define u where "u = sqrt a / sqrt (1 - a)"
  have eq: "atan2 (sqrt a) (sqrt (1 - a)) = arctan u"
    using pos by (simp add: atan2_def u_def)
  have "uL \<le> sqrt a" using assms(3) by (rule real_le_rsqrt)
  also have "sqrt a \<le> u"
  proof -
    have "sqrt a * sqrt (1 - a) \<le> sqrt a * 1"
      using le1 a0 by (intro mult_left_mono) simp_all
    then show ?thesis using pos by (simp add: u_def pos_le_divide_eq)
  qed
  finally have "arctan uL \<le> arctan u" by (rule arctan_monotone')
  with arctan_series_bounds(1) [OF assms(1,2)]
  show "uL - uL ^ 3 / 3 \<le> atan2 (sqrt a) (sqrt (1 - a))"
    unfolding eq by linarith
  have "a / (1 - a) \<le> uU\<^sup>2"
    using assms(4,7) by (simp add: pos_divide_le_eq)
  then have "sqrt (a / (1 - a)) \<le> uU"
    using assms(5) by (intro real_le_lsqrt) simp_all
  then have "u \<le> uU" by (simp add: u_def real_sqrt_divide)
  then have "arctan u \<le> arctan uU" by (rule arctan_monotone')
  with arctan_series_bounds(3) [OF assms(5,6)]
  show "atan2 (sqrt a) (sqrt (1 - a)) \<le> uU"
    unfolding eq by linarith
qed

lemma calculateDistance_parkStreet:
  "calculateDistance 42.3601 (- 71.0589) 42.3554 (- 71.0640) =
   6371 * (2 * atan2 (sqrt parkStreetHaversine) (sqrt (1 - parkStreetHaversine))) * 0.621371"
proof -
  have 1: "(42.3554 - 42.3601) * pi / 180 / 2 = - (0.0047 * pi / 360)" by simp
  have 2: "(- 71.0640 - - 71.0589) * pi / 180 / 2 = - (0.0051 * pi / 360)" by simp
  have "sin ((42.3554 - 42.3601) * pi / 180 / 2) * sin ((42.3554 - 42.3601) * pi / 180 / 2) +
      cos (42.3601 * pi / 180) * cos (42.3554 * pi / 180) *
      sin ((- 71.0640 - - 71.0589) * pi / 180 / 2) * sin ((- 71.0640 - - 71.0589) * pi / 180 / 2)
      = parkStreetHaversine"
    unfolding 1 2 by (simp add: parkStreetHaversine_def power2_eq_square)
  then show ?thesis
    unfolding calculateDistance_def Let_def by (simp only:)
qed

lemma parkStreetHaversine_bounds:
  "2.71 / 10 ^ 9 \<le> parkStreetHaversine" "parkStreetHaversine \<le> 2.8 / 10 ^ 9"
proof -
  define x1 where "x1 = 0.0047 * pi / 360"
  define x2 where "x2 = 0.0051 * pi / 360"
  define p1 where "p1 = 42.3601 * pi / 180"
  define p2 where "p2 = 42.3554 * pi / 180"
  note pb = pi_bounds
  have x1: "4.0994 / 10 ^ 5 \<le> x1" "x1 \<le> 4.1021 / 10 ^ 5"
    using pb by (simp_all add: x1_def)
  have x2: "4.4483 / 10 ^ 5 \<le> x2" "x2 \<le> 4.4512 / 10 ^ 5"
    using pb by (simp_all add: x2_def)
  have p1: "0.7388 \<le> p1" "p1 \<le> 0.7395"
    using pb by (simp_all add: p1_def)
  have p2: "0.7388 \<le> p2" "p2 \<le> 0.7395"
    using pb by (simp_all add: p2_def)
  define z1 where "z1 = x1 ^ 3"
  define z2 where "z2 = x2 ^ 3"
  have z1: "z1 \<le> 1 / 10 ^ 12"
  proof -
    have "x1 ^ 3 \<le> (4.1021 / 10 ^ 5) ^ 3"
      using x1 by (intro power_mono) simp_all
    also have "\<dots> \<le> 1 / 10 ^ 12" by (simp add: power3_eq_cube)
    finally show ?thesis by (simp add: z1_def)
  qed
  have z2: "z2 \<le> 1 / 10 ^ 12"
  proof -
    have "x2 ^ 3 \<le> (4.4512 / 10 ^ 5) ^ 3"
      using x2 by (intro power_mono) simp_all
    also have "\<dots> \<le> 1 / 10 ^ 12" by (simp add: power3_eq_cube)
    finally show ?thesis by (simp add: z2_def)
  qed
  have sinb: "4.099 / 10 ^ 5 \<le> sin x1 \<and> sin x1 \<le> 4.103 / 10 ^ 5 \<and>
      4.448 / 10 ^ 5 \<le> sin x2 \<and> sin x2 \<le> 4.452 / 10 ^ 5"
  proof -
    have "0 \<le> x1" "0 \<le> x2" using x1 x2 by simp_all
    then have "x1 - z1 / 6 \<le> sin x1" "x2 - z2 / 6 \<le> sin x2" "sin x1 \<le> x1" "sin x2 \<le> x2"
      using sin_lower [of x1] sin_lower [of x2] sin_x_le_x [of x1] sin_x_le_x [of x2]
      by (simp_all add: z1_def z2_def)
    with x1 x2 z1 z2 show ?thesis by simp
  qed
  have cosb: "0.7265 \<le> cos p \<and> cos p \<le> 0.7396" if "0.7388 \<le> p" "p \<le> 0.7395" for p :: real
  proof -
    define q2 where "q2 = p\<^sup>2"
    define q4 where "q4 = p ^ 4"
    have "p\<^sup>2 \<le> 0.7395\<^sup>2" "0.7388\<^sup>2 \<le> p\<^sup>2"
      using that by (simp_all add: power_mono)
    then have q2: "q2 \<le> 0.5469" "0.5458 \<le> q2"
      by (simp_all add: q2_def power2_eq_square)
    have "p ^ 4 \<le> 0.7395 ^ 4"
      using that by (intro power_mono) simp_all
    also have "\<dots> \<le> (0.3 :: real)" by (simp add: power4_eq_xxxx)
    finally have q4: "q4 \<le> 0.3" by (simp add: q4_def)
    from cos_bounds [of p] have "1 - q2 / 2 \<le> cos p" "cos p \<le> 1 - q2 / 2 + q4 / 24"
      by (simp_all add: q2_def q4_def)
    with q2 q4 show ?thesis by simp
  qed
  define s1 where "s1 = sin x1"
  define s2 where "s2 = sin x2"
  define c1 where "c1 = cos p1"
  define c2 where "c2 = cos p2"
  have s1: "4.099 / 10 ^ 5 \<le> s1" "s1 \<le> 4.103 / 10 ^ 5"
    and s2: "4.448 / 10 ^ 5 \<le> s2" "s2 \<le> 4.452 / 10 ^ 5"
    using sinb by (simp_all add: s1_def s2_def)
  have c1: "0.7265 \<le> c1" "c1 \<le> 0.7396" and c2: "0.7265 \<le> c2" "c2 \<le> 0.7396"
    using cosb [OF p1] cosb [OF p2] by (simp_all add: c1_def c2_def)
  have eq: "parkStreetHaversine = s1\<^sup>2 + c1 * c2 * s2\<^sup>2"
    by (simp add: parkStreetHaversine_def s1_def s2_def c1_def c2_def x1_def x2_def p1_def p2_def)
  have s1sq: "(4.099 / 10 ^ 5)\<^sup>2 \<le> s1\<^sup>2" "s1\<^sup>2 \<le> (4.103 / 10 ^ 5)\<^sup>2"
    using s1 by (simp_all add: power_mono)
  have s2sq: "(4.448 / 10 ^ 5)\<^sup>2 \<le> s2\<^sup>2" "s2\<^sup>2 \<le> (4.452 / 10 ^ 5)\<^sup>2"
    using s2 by (simp_all add: power_mono)
  have ccL: "0.7265 * 0.7265 \<le> c1 * c2"
    using c1 c2 by (intro mult_mono) simp_all
  have ccU: "c1 * c2 \<le> 0.7396 * 0.7396"
    using c1 c2 by (intro mult_mono) simp_all
  have L: "0.7265 * 0.7265 * (4.448 / 10 ^ 5)\<^sup>2 \<le> c1 * c2 * s2\<^sup>2"
    using ccL s2sq(1) c1 c2 by (intro mult_mono) simp_all
  have U: "c1 * c2 * s2\<^sup>2 \<le> 0.7396 * 0.7396 * (4.452 / 10 ^ 5)\<^sup>2"
    using ccU s2sq(2) c1 c2 by (intro mult_mono) simp_all
  from L s1sq(1) show "2.71 / 10 ^ 9 \<le> parkStreetHaversine"
    unfolding eq by (simp add: power2_eq_square)
  from U s1sq(2) show "parkStreetHaversine \<le> 2.8 / 10 ^ 9"
    unfolding eq by (simp add: power2_eq_square)
qed

lemma parkStreet_distance:
  "0.41 < calculateDistance 42.3601 (- 71.0589) 42.3554 (- 71.0640)"
  "calculateDistance 42.3601 (- 71.0589) 42.3554 (- 71.0640) < 0.42"
proof -
  note b = parkStreetHaversine_bounds
  have 1: "(5.2 / 10 ^ 5)\<^sup>2 \<le> parkStreetHaversine" using b(1) by (simp add: power2_eq_square)
  have 2: "parkStreetHaversine < 1" using b(2) by simp
  have 3: "parkStreetHaversine \<le> (5.3 / 10 ^ 5)\<^sup>2 * (1 - parkStreetHaversine)"
    using b(2) by (simp add: power2_eq_square)
  have lo: "5.2 / 10 ^ 5 - (5.2 / 10 ^ 5) ^ 3 / 3 \<le>
      atan2 (sqrt parkStreetHaversine) (sqrt (1 - parkStreetHaversine))"
    by (rule haversine_angle_bounds(1) [OF _ _ 1 2 _ _ 3]) simp_all
  have hi: "atan2 (sqrt parkStreetHaversine) (sqrt (1 - parkStreetHaversine)) \<le> 5.3 / 10 ^ 5"
    by (rule haversine_angle_bounds(2) [OF _ _ 1 2 _ _ 3]) simp_all
  from lo show "0.41 < calculateDistance 42.3601 (- 71.0589) 42.3554 (- 71.0640)"
    unfolding calculateDistance_parkStreet by (simp add: power3_eq_cube)
  from hi show "calculateDistance 42.3601 (- 71.0589) 42.3554 (- 71.0640) < 0.42"
    unfolding calculateDistance_parkStreet by simp
qed

section \<open>The claims about the resolver\<close>

text \<open>
  C1. Whenever \<open>fetchNearbyStations\<close> returns a list, the list has at most three
  stations, every distance in it is at most the radius, and the distances ascend. The
  merge by name keeps the order: on a list ascending by distance its result ascends by
  distance, and the distances of the result are a subsequence of those it was given.
\<close>

theorem fetchNearbyStations_closest_three:
  assumes "fetchNearbyStations sp net lat lon radius now w = (Inr stations, w')"
  shows "length stations \<le> 3 \<and>
     (\<forall>s \<in> set stations. distance s \<le> radius) \<and>
     sorted (map distance stations) \<and>
     (sorted (map distance S) \<longrightarrow>
        sorted (map distance (finalStations sp S)) \<and>
        subseq (map distance (finalStations sp S)) (map distance S))"
proof -
  from fetchNearbyStations_Inr [OF assms] obtain stops w2 where
    r: "resolveStations sp (routes_api net) lat lon radius stops w2 = (Inr stations, w')"
    by blast
  from resolveStations_result [of stops lat lon radius sp "routes_api net" w2] r
  obtain groups sts where
    all2: "list_all2 stationFromGroup (stationsWithDistance lat lon radius groups) sts"
    and st: "stations = finalStations sp sts"
    by auto
  let ?wd = "stationsWithDistance lat lon radius groups"
  from stationFromGroup_distances [OF all2] have d: "map distance sts = map snd ?wd"
    by simp
  from stationsWithDistance_props [of lat lon radius groups]
  have wd: "length ?wd \<le> 3" "\<forall>sd \<in> set ?wd. snd sd \<le> radius" "sorted (map snd ?wd)"
    by simp_all
  from d wd(3) have sorted: "sorted (map distance sts)" by simp
  from d have len: "length sts = length ?wd" by (rule map_eq_imp_length_eq)
  have le: "\<forall>x \<in> set (map distance sts). x \<le> radius"
    unfolding d using wd(2) by simp
  from finalStations_sorted [where sp = sp, OF sorted] len wd(1) le
  have "length stations \<le> 3 \<and> (\<forall>s \<in> set stations. distance s \<le> radius) \<and>
     sorted (map distance stations)"
    unfolding st by auto
  moreover have "sorted (map distance S) \<longrightarrow>
        sorted (map distance (finalStations sp S)) \<and>
        subseq (map distance (finalStations sp S)) (map distance S)"
    using finalStations_sorted [of S sp] finalStations_subseq [of S sp] by blast
  ultimately show ?thesis by blast
qed

text \<open>
  An instance: the two Park Street platforms, queried from their own coordinate, and the
  merge of two stations of one name at 0.2 and 0.3 miles.
\<close>

theorem fetchNearbyStations_closest_three_witness:
  "fetchNearbyStations asciiStrings (parkStreetNet 1 0) 42.3554 (- 71.0640) 1.25 0 world0 =
     (Inr [parkStreetStation ''70075'' 0 True [redLineInfo]],
      afterRoutes 0 [Fetch (stopRoutesUrl ''70075''), Delay 500, Fetch (stopRoutesUrl ''70076'')]) \<and>
   length [parkStreetStation ''70075'' 0 True [redLineInfo]] \<le> 3 \<and>
   distance (parkStreetStation ''70075'' 0 True [redLineInfo]) \<le> 1.25 \<and>
   sorted (map distance [parkStreetLower, parkStreetUpper]) \<and>
   sorted (map distance (finalStations asciiStrings [parkStreetLower, parkStreetUpper])) \<and>
   subseq (map distance (finalStations asciiStrings [parkStreetLower, parkStreetUpper]))
          (map distance [parkStreetLower, parkStreetUpper])"
proof -
  have d0: "(0::real) = calculateDistance 42.3554 (- 71.0640) 42.3554 (- 71.0640)"
    by (simp add: calculateDistance_same)
  have e: "fetchNearbyStations asciiStrings (parkStreetNet 1 0) 42.3554 (- 71.0640) 1.25 0 world0 =
     (Inr [parkStreetStation ''70075'' 0 True [redLineInfo]],
      afterRoutes 0 [Fetch (stopRoutesUrl ''70075''), Delay 500, Fetch (stopRoutesUrl ''70076'')])"
    using parkStreet_resolution [OF d0, of "1.25" asciiStrings 1 0 0] by simp
  have s: "sorted (map distance [parkStreetLower, parkStreetUpper])"
    by (simp add: parkStreetUpper_def parkStreetLower_def)
  from fetchNearbyStations_closest_three [OF e, of "[parkStreetLower, parkStreetUpper]"] e s
  show ?thesis by simp
qed

text \<open>
  C2. The group takes its wheelchair flag from the stop that creates it and no later stop
  changes it. With the platform of flag 0 first and the platform of flag 1 second, the
  group and the station returned for it are not accessible, although a stop of the group
  reports \<open>wheelchair_boarding = 1\<close>.
\<close>

theorem wheelchair_flag_of_first_stop_only:
  "groupStops [platform ''70075'' 0, platform ''70076'' 1] =
     Inr [parkStreetGroup [platform ''70075'' 0, platform ''70076'' 1] False] \<and>
   attr_wheelchair_boarding (stop_attributes (platform ''70076'' 1)) = Some 1 \<and>
   fst (fetchNearbyStations sp (parkStreetNet 0 1) 42.3554 (- 71.0640) 1.25 0 world0) =
     Inr [parkStreetStation ''70075'' 0 False [redLineInfo]]"
proof -
  have "(0::real) = calculateDistance 42.3554 (- 71.0640) 42.3554 (- 71.0640)"
    by (simp add: calculateDistance_same)
  from parkStreet_resolution [OF this, of "1.25" sp 0 1 0] groupStops_platforms [of "''70075''" 0 "''70076''" 1]
  show ?thesis by (simp add: platform_def)
qed

text \<open>
  C4, as stated: in the example the one station returned has distance
  \<open>calculateDistance 42.3601 (-71.0589) 42.3554 (-71.0640)\<close>, and this number is below
  0.615, so it is not 0.62 to two decimals.
\<close>

theorem parkStreet_example_distance_counterexample:
  "fst (fetchNearbyStations asciiStrings (parkStreetNet 1 0) 42.3601 (- 71.0589) 1.25 0 world0) =
     Inr [parkStreetStation ''70075''
            (calculateDistance 42.3601 (- 71.0589) 42.3554 (- 71.0640)) True [redLineInfo]] \<and>
   \<not> 0.615 \<le> calculateDistance 42.3601 (- 71.0589) 42.3554 (- 71.0640)"
proof -
  have le: "calculateDistance 42.3601 (- 71.0589) 42.3554 (- 71.0640) \<le> 1.25"
    using parkStreet_distance(2) by simp
  from parkStreet_resolution [OF refl le, of asciiStrings 1 0 0] parkStreet_distance(2)
  show ?thesis by simp
qed

text \<open>
  C4, amended. With the accessible platform first in the answer of the server, the
  example gives exactly one station "Park Street", accessible, with the route of both
  platforms, at a distance between 0.41 and 0.42 miles.
\<close>

theorem parkStreet_example_resolution:
  "fetchNearbyStations sp (parkStreetNet 1 0) 42.3601 (- 71.0589) 1.25 now world0 =
     (Inr [parkStreetStation ''70075''
             (calculateDistance 42.3601 (- 71.0589) 42.3554 (- 71.0640)) True [redLineInfo]],
      afterRoutes now
        [Fetch (stopRoutesUrl ''70075''), Delay 500, Fetch (stopRoutesUrl ''70076'')]) \<and>
   0.41 < calculateDistance 42.3601 (- 71.0589) 42.3554 (- 71.0640) \<and>
   calculateDistance 42.3601 (- 71.0589) 42.3554 (- 71.0640) < 0.42"
proof -
  have le: "calculateDistance 42.3601 (- 71.0589) 42.3554 (- 71.0640) \<le> 1.25"
    using parkStreet_distance(2) by simp
  from parkStreet_resolution [OF refl le, of sp 1 0 now] parkStreet_distance
  show ?thesis by simp
qed

text \<open>
  C8. Whatever \<^verbatim>\<open>toLowerCase\<close> and \<^verbatim>\<open>trim\<close> of the engine do to a string, the merge
  returns one station for every key \<^verbatim>\<open>name.toLowerCase().trim()\<close>, in the order in which
  the keys first occur, so no two stations of the result have the same key; the station
  of a key is the first station of that key with every later one merged into it.
  Merging \<open>b\<close> into \<open>a\<close> keeps name and id of \<open>a\<close>, takes the smaller distance, the
  coordinate of \<open>b\<close> only when \<open>b\<close> is strictly closer, the disjunction of the
  wheelchair flags, and routes whose ids are distinct and are the ids of \<open>a\<close> and of
  \<open>b\<close> together.
\<close>

theorem finalStations_merges_same_name:
  "finalStations sp S =
     map (\<lambda>k. mergeAll (filter (sameName sp k) S))
         (firstOccurrences (map (\<lambda>s. nameKey sp (name s)) S)) \<and>
   map (\<lambda>s. nameKey sp (name s)) (finalStations sp S) =
     firstOccurrences (map (\<lambda>s. nameKey sp (name s)) S) \<and>
   distinct (map (\<lambda>s. nameKey sp (name s)) (finalStations sp S)) \<and>
   mergeAll [a, b] = mergeInto b a \<and>
   name (mergeInto b a) = name a \<and>
   station_id (mergeInto b a) = station_id a \<and>
   hasRouteData (mergeInto b a) = hasRouteData a \<and>
   distance (mergeInto b a) = min (distance a) (distance b) \<and>
   (latitude (mergeInto b a), longitude (mergeInto b a)) =
     (if distance b < distance a then (latitude b, longitude b) else (latitude a, longitude a)) \<and>
   wheelchair_accessible (mergeInto b a) = (wheelchair_accessible a \<or> wheelchair_accessible b) \<and>
   set (map info_id (routes (mergeInto b a))) =
     set (map info_id (routes a)) \<union> set (map info_id (routes b)) \<and>
   distinct (map info_id (routes (mergeInto b a))) \<and>
   set (routes (mergeInto b a)) \<subseteq> set (routes a) \<union> set (routes b)"
  using finalStations_classes [of sp S] finalStations_keys [of sp S]
    mergeRoutes_union [of "routes a" "routes b"]
  by (simp add: mergeInto_fields mergeAll_def)

text \<open>
  An instance, with the string functions of the instances: "Park Street" at 0.3 miles and
  "park street " at 0.2 miles have the key "park street" and become one station.
\<close>

theorem finalStations_merges_same_name_witness:
  "nameKey asciiStrings (name parkStreetUpper) = nameKey asciiStrings (name parkStreetLower) \<and>
   finalStations asciiStrings [parkStreetUpper, parkStreetLower] = [parkStreetMerged] \<and>
   distance parkStreetMerged = min (distance parkStreetUpper) (distance parkStreetLower) \<and>
   set (map info_id (routes parkStreetMerged)) =
     set (map info_id (routes parkStreetUpper)) \<union> set (map info_id (routes parkStreetLower))"
proof -
  have k1: "nameKey asciiStrings (name parkStreetUpper) = ''park street''"
    unfolding parkStreetUpper_def by code_simp
  have k2: "nameKey asciiStrings (name parkStreetLower) = ''park street''"
    unfolding parkStreetLower_def by code_simp
  have m: "mergeInto parkStreetLower parkStreetUpper = parkStreetMerged"
    by (simp add: mergeInto_def mergeRoutes_def setRoute_def parkStreetUpper_def
        parkStreetLower_def parkStreetMerged_def redLineInfo_def greenLineInfo_def)
  have f: "filter (sameName asciiStrings ''park street'') [parkStreetUpper, parkStreetLower] =
      [parkStreetUpper, parkStreetLower]"
    by (simp add: sameName_def k1 k2)
  have o: "firstOccurrences (map (\<lambda>s. nameKey asciiStrings (name s)) [parkStreetUpper, parkStreetLower]) =
      [''park street'']"
    by (simp add: firstOccurrences_def k1 k2)
  note t = finalStations_merges_same_name [of asciiStrings "[parkStreetUpper, parkStreetLower]" parkStreetUpper parkStreetLower]
  from t have 1: "finalStations asciiStrings [parkStreetUpper, parkStreetLower] =
      map (\<lambda>k. mergeAll (filter (sameName asciiStrings k) [parkStreetUpper, parkStreetLower]))
        (firstOccurrences (map (\<lambda>s. nameKey asciiStrings (name s)) [parkStreetUpper, parkStreetLower]))"
    by (rule conjunct1)
  from t have 2: "mergeAll [parkStreetUpper, parkStreetLower] =
      mergeInto parkStreetLower parkStreetUpper"
    by (rule conjunct2 [THEN conjunct2, THEN conjunct2, THEN conjunct1])
  have 3: "finalStations asciiStrings [parkStreetUpper, parkStreetLower] = [parkStreetMerged]"
    unfolding 1 o by (simp only: list.map f 2 m)
  have 4: "distance parkStreetMerged = min (distance parkStreetUpper) (distance parkStreetLower)"
    by (simp add: parkStreetMerged_def parkStreetUpper_def parkStreetLower_def)
  have 5: "set (map info_id (routes parkStreetMerged)) =
     set (map info_id (routes parkStreetUpper)) \<union> set (map info_id (routes parkStreetLower))"
    by (auto simp: parkStreetMerged_def parkStreetUpper_def parkStreetLower_def)
  from k1 k2 3 4 5 show ?thesis by simp
qed

text \<open>
  C9. When the call for the routes of a stop throws, or runs out of attempts and gives
  \<^verbatim>\<open>undefined\<close>, the loop stores the empty list for that stop (and keeps it when
  the stop does not come again). When the routes and the
  stops have arrived, \<open>fetchNearbyStations\<close> returns a list whatever happens to the
  calls for single stops: every station of it has \<open>hasRouteData\<close>, and its names are
  the names of the groups within the radius, the three closest, in their order.
\<close>

theorem stop_route_failure_is_contained:
  "((fst (makeApiCall srv (stopRoutesUrl stopId) 2
           (if Some stopId \<noteq> first allStopIds then delay 500 ws else ws)) = Inl e \<or>
     fst (makeApiCall srv (stopRoutesUrl stopId) 2
           (if Some stopId \<noteq> first allStopIds then delay 500 ws else ws)) = Inr None) \<and>
    stopId \<notin> set rest \<longrightarrow>
      fst (fetchStopRoutes srv allStopIds (stopId # rest) stopRoutesMap ws) stopId = Some []) \<and>
   (getRoutesData (routes_api net) now w = (Inr (Some routesData), w1) \<and>
    makeApiCall (stops_api net) stopsUrl 2 w1 = (Inr (Some d), w2) \<and>
    data d = Some stops \<longrightarrow>
      (\<exists>stations w3 groups.
         fetchNearbyStations sp net lat lon radius now w = (Inr stations, w3) \<and>
         (\<forall>s \<in> set stations. hasRouteData s) \<and>
         groupStops stops = Inr groups \<and>
         map (\<lambda>s. nameKey sp (name s)) stations =
           firstOccurrences (map (\<lambda>sd. nameKey sp (group_name (fst sd)))
                                 (stationsWithDistance lat lon radius groups))))"
proof -
  have "fetchNearbyStations sp net lat lon radius now w =
      resolveStations sp (routes_api net) lat lon radius stops w2"
    if "getRoutesData (routes_api net) now w = (Inr (Some routesData), w1)"
      "makeApiCall (stops_api net) stopsUrl 2 w1 = (Inr (Some d), w2)" "data d = Some stops"
    using that by (simp add: fetchNearbyStations_def)
  with resolveStations_full [of sp "routes_api net" lat lon radius stops w2]
  have "getRoutesData (routes_api net) now w = (Inr (Some routesData), w1) \<and>
    makeApiCall (stops_api net) stopsUrl 2 w1 = (Inr (Some d), w2) \<and>
    data d = Some stops \<longrightarrow>
      (\<exists>stations w3 groups.
         fetchNearbyStations sp net lat lon radius now w = (Inr stations, w3) \<and>
         (\<forall>s \<in> set stations. hasRouteData s) \<and>
         groupStops stops = Inr groups \<and>
         map (\<lambda>s. nameKey sp (name s)) stations =
           firstOccurrences (map (\<lambda>sd. nameKey sp (group_name (fst sd)))
                                 (stationsWithDistance lat lon radius groups)))"
    by auto
  moreover have "(fst (makeApiCall srv (stopRoutesUrl stopId) 2
           (if Some stopId \<noteq> first allStopIds then delay 500 ws else ws)) = Inl e \<or>
     fst (makeApiCall srv (stopRoutesUrl stopId) 2
           (if Some stopId \<noteq> first allStopIds then delay 500 ws else ws)) = Inr None) \<and>
    stopId \<notin> set rest \<longrightarrow>
      fst (fetchStopRoutes srv allStopIds (stopId # rest) stopRoutesMap ws) stopId = Some []"
    using fetchStopRoutes_failed_stop [of srv stopId allStopIds ws e rest stopRoutesMap]
    by blast
  ultimately show ?thesis by (intro conjI)
qed

text \<open>
  An instance: the route server answers the first request and rejects every later one.
  Both platforms get the empty route list and the station is returned.
\<close>

theorem stop_route_failure_is_contained_witness:
  "fst (makeApiCall unreachable (stopRoutesUrl ''70075'') 2
         (if Some ''70075'' \<noteq> first [''70075'', ''70076''] then delay 500 world0 else world0)) =
     Inl FetchRejected \<and>
   ''70075'' \<notin> set [''70076''] \<and>
   fst (fetchStopRoutes unreachable [''70075'', ''70076''] (''70075'' # [''70076'']) Map.empty world0)
     ''70075'' = Some [] \<and>
   getRoutesData (routes_api degradedNet) 0 world0 =
     (Inr (Some redLineDocument),
      \<lparr>routesCache = Some redLineDocument, routesCacheTimestamp = 0, trace = [Fetch routesUrl]\<rparr>) \<and>
   makeApiCall (stops_api degradedNet) stopsUrl 2
      \<lparr>routesCache = Some redLineDocument, routesCacheTimestamp = 0, trace = [Fetch routesUrl]\<rparr> =
     (Inr (Some (parkStreetStops 1 0)), afterRoutes 0 []) \<and>
   data (parkStreetStops 1 0) = Some [platform ''70075'' 1, platform ''70076'' 0] \<and>
   fetchNearbyStations asciiStrings degradedNet 42.3554 (- 71.0640) 1.25 0 world0 =
     (Inr [parkStreetStation ''70075'' 0 True []],
      afterRoutes 0
       [Fetch (stopRoutesUrl ''70075''), Delay 2000, Fetch (stopRoutesUrl ''70075''), Delay 500,
        Fetch (stopRoutesUrl ''70076''), Delay 2000, Fetch (stopRoutesUrl ''70076'')]) \<and>
   hasRouteData (parkStreetStation ''70075'' 0 True [])"
proof -
  let ?w1 = "\<lparr>routesCache = Some redLineDocument, routesCacheTimestamp = 0,
     trace = [Fetch routesUrl]\<rparr>"
  have a: "fst (makeApiCall unreachable (stopRoutesUrl ''70075'') 2
         (if Some ''70075'' \<noteq> first [''70075'', ''70076''] then delay 500 world0 else world0)) =
     Inl FetchRejected"
    by (simp add: makeApiCall_unreachable)
  have b: "''70075'' \<notin> set [''70076'']" by simp
  have 1: "getRoutesData (routes_api degradedNet) 0 world0 = (Inr (Some redLineDocument), ?w1)"
    by (simp add: degradedNet_def getRoutesData_world0 routesThenDown_def)
  have 2: "makeApiCall (stops_api degradedNet) stopsUrl 2 ?w1 =
      (Inr (Some (parkStreetStops 1 0)), afterRoutes 0 [])"
    by (simp add: degradedNet_def makeApiCall_stopsServer afterRoutes_def)
  have 3: "data (parkStreetStops 1 0) = Some [platform ''70075'' 1, platform ''70076'' 0]"
    by (simp add: parkStreetStops_def)
  note t = stop_route_failure_is_contained [where srv = unreachable and stopId = "''70075''"
      and allStopIds = "[''70075'', ''70076'']" and ws = world0 and w = world0
      and e = FetchRejected
      and rest = "[''70076'']" and stopRoutesMap = Map.empty and net = degradedNet and now = 0
      and routesData = redLineDocument and ?w1.0 = ?w1 and d = "parkStreetStops 1 0"
      and ?w2.0 = "afterRoutes 0 []" and stops = "[platform ''70075'' 1, platform ''70076'' 0]"
      and lat = "42.3554" and lon = "- 71.0640" and radius = "1.25"
      and sp = asciiStrings]
  from t a b have c: "fst (fetchStopRoutes unreachable [''70075'', ''70076'']
      (''70075'' # [''70076'']) Map.empty world0) ''70075'' = Some []"
    by blast
  from t 1 2 3 obtain stations w3 where
    r: "fetchNearbyStations asciiStrings degradedNet 42.3554 (- 71.0640) 1.25 0 world0 = (Inr stations, w3)"
    and h: "\<forall>s \<in> set stations. hasRouteData s"
    by blast
  from r degraded_resolution [of asciiStrings 0] have "stations = [parkStreetStation ''70075'' 0 True []]"
    by simp
  with h have "hasRouteData (parkStreetStation ''70075'' 0 True [])" by simp
  with a b c 1 2 3 degraded_resolution [of asciiStrings 0] show ?thesis by blast
qed

text \<open>
  C10. A stop passes the filter exactly when its latitude and its longitude are present
  and not 0. Every stop that passes has a key, so grouping never throws; every stop of
  every group has passed the filter; the stops dropped have no effect on the result; and
  once the stops are there the resolution returns a list.
\<close>

theorem stops_without_coordinates_are_dropped:
  "(hasCoordinates stop \<longleftrightarrow>
      (\<exists>la lo. attr_latitude (stop_attributes stop) = Some la \<and> la \<noteq> 0 \<and>
               attr_longitude (stop_attributes stop) = Some lo \<and> lo \<noteq> 0)) \<and>
   (\<forall>s \<in> set (filter hasCoordinates stops). \<exists>k. createStationKey s = Inr k) \<and>
   (\<exists>groups. groupStops stops = Inr groups \<and>
      (\<forall>g \<in> set groups. \<forall>s \<in> set (group_stops g). hasCoordinates s)) \<and>
   resolveStations sp srv lat lon radius stops w =
     resolveStations sp srv lat lon radius (filter hasCoordinates stops) w \<and>
   (\<exists>stations w'. resolveStations sp srv lat lon radius stops w = (Inr stations, w'))"
proof -
  have 1: "\<forall>s \<in> set (filter hasCoordinates stops). \<exists>k. createStationKey s = Inr k"
    using createStationKey_hasCoordinates by simp
  obtain groups where g: "groupStops stops = Inr groups"
    and inv: "\<forall>g \<in> set groups. \<exists>k. groupInvariant (k, g)"
    using groupStops_total [of stops] by blast
  have 2: "\<forall>g \<in> set groups. \<forall>s \<in> set (group_stops g). hasCoordinates s"
  proof (intro ballI)
    fix g s assume "g \<in> set groups" "s \<in> set (group_stops g)"
    with inv obtain k where "groupInvariant (k, g)" by blast
    with \<open>s \<in> set (group_stops g)\<close> show "hasCoordinates s"
      by (auto simp: groupInvariant_def split: list.splits)
  qed
  have "groupStops (filter hasCoordinates stops) = groupStops stops"
    by (simp add: groupStops_def)
  then have 3: "resolveStations sp srv lat lon radius stops w =
     resolveStations sp srv lat lon radius (filter hasCoordinates stops) w"
    by (simp add: resolveStations_def)
  from resolveStations_full [of sp srv lat lon radius stops w]
  have 4: "\<exists>stations w'. resolveStations sp srv lat lon radius stops w = (Inr stations, w')"
    by blast
  from 1 2 3 4 g hasCoordinates_iff [of stop] show ?thesis by blast
qed

text \<open>
  An instance: a stop without latitude and a stop on the equator are dropped, the
  platform stays.
\<close>

theorem stops_without_coordinates_are_dropped_witness:
  "\<not> hasCoordinates noLatitudeStop \<and> \<not> hasCoordinates equatorStop \<and>
   createStationKey noLatitudeStop = Inl TypeError \<and>
   filter hasCoordinates [noLatitudeStop, equatorStop, platform ''70075'' 1] =
     [platform ''70075'' 1] \<and>
   (\<exists>k. createStationKey (platform ''70075'' 1) = Inr k) \<and>
   groupStops [noLatitudeStop, equatorStop, platform ''70075'' 1] =
     Inr [parkStreetGroup [platform ''70075'' 1] True] \<and>
   hasCoordinates (platform ''70075'' 1) \<and>
   (\<exists>stations w'.
      resolveStations asciiStrings routesServer 42.3554 (- 71.0640) 1.25
        [noLatitudeStop, equatorStop, platform ''70075'' 1] world0 = (Inr stations, w'))"
proof -
  let ?stops = "[noLatitudeStop, equatorStop, platform ''70075'' 1]"
  have f: "filter hasCoordinates ?stops = [platform ''70075'' 1]"
    by (simp add: hasCoordinates_def truthy_num_def noLatitudeStop_def equatorStop_def platform_def)
  have g: "groupStops ?stops = Inr [parkStreetGroup [platform ''70075'' 1] True]"
    unfolding groupStops_def f
    by (simp add: platform_def addStop_def createStationKey_def parkStreetGroup_def)
  have n: "createStationKey noLatitudeStop = Inl TypeError"
    by (simp add: createStationKey_def noLatitudeStop_def)
  note t1 = stops_without_coordinates_are_dropped [of noLatitudeStop ?stops asciiStrings routesServer "42.3554" "- 71.0640" "1.25" world0]
  note t2 = stops_without_coordinates_are_dropped [of equatorStop ?stops asciiStrings routesServer "42.3554" "- 71.0640" "1.25" world0]
  have h1: "\<not> hasCoordinates noLatitudeStop"
    using t1 by (simp add: noLatitudeStop_def)
  have h2: "\<not> hasCoordinates equatorStop"
    using t2 by (simp add: equatorStop_def)
  from t1 f have k: "\<exists>k. createStationKey (platform ''70075'' 1) = Inr k" by simp
  from t1 g have i: "hasCoordinates (platform ''70075'' 1)"
    by (simp add: parkStreetGroup_def)
  from t1 have r: "\<exists>stations w'.
      resolveStations asciiStrings routesServer 42.3554 (- 71.0640) 1.25 ?stops world0 = (Inr stations, w')"
    by blast
  from h1 h2 n f k g i r show ?thesis by blast
qed

end
